theory Spec2Isabelle
  imports Main "HOL-Library.Sublist"
begin

section \<open>Strings and numbers of the host language\<close>

text \<open>
  Python strings are modelled as \<^typ>\<open>string\<close> over ASCII characters, Python's unbounded
  integers as \<^typ>\<open>int\<close>. Times in seconds are taken to be integers; the transcriber's
  floating-point times are outside this model.
\<close>

text \<open>The decimal digit \<open>d\<close> (below ten) as a character.\<close>

definition digit_char :: "nat \<Rightarrow> char" where
  "digit_char d = ''0123456789'' ! d"

text \<open>\<open>str(n)\<close> for a natural number: its decimal digits, most significant first.\<close>

function str_nat :: "nat \<Rightarrow> string" where
  "str_nat n = (if n < 10 then [digit_char n] else str_nat (n div 10) @ [digit_char (n mod 10)])"
  by pat_completeness auto
termination
  by (relation "measure (\<lambda>n. n)") auto

declare str_nat.simps [simp del]


text \<open>\<open>sep.join(xs)\<close>.\<close>

fun str_join :: "string \<Rightarrow> string list \<Rightarrow> string" where
  "str_join sep [] = []"
| "str_join sep [x] = x"
| "str_join sep (x # y # ys) = x @ sep @ str_join sep (y # ys)"

section \<open>Timestamp context lookup\<close>

record segment =
  seg_start :: int
  seg_end :: int
  seg_text :: string





subsection \<open>The lookup as the specification words it\<close>




section \<open>Sessions, status entries and the process state\<close>

datatype role = User | Assistant

record message =
  role :: role
  content :: string

text \<open>
  One entry of \<open>chat_sessions\<close>. The keys \<open>messages\<close>, \<open>extracted_text\<close> and
  \<open>is_processing\<close> are there from creation; the key \<open>segments\<close> may be absent.
\<close>

record session_data =
  messages :: "message list"
  extracted_text :: string
  segments :: "segment list option"
  is_processing :: bool

text \<open>
  Exceptions, as values. \<open>Failure msg\<close> is an exception raised by a collaborator or by the
  operating system, whose \<open>str\<close> is \<open>msg\<close>.
\<close>

datatype exn = KeyError string | IndexError | Failure string

text \<open>\<open>str(e)\<close>. A \<open>KeyError\<close> prints its key quoted (keys here hold no quote characters).\<close>

fun str_exn :: "exn \<Rightarrow> string" where
  "str_exn (KeyError k) = [CHR 0x27] @ k @ [CHR 0x27]"
| "str_exn IndexError = ''list index out of range''"
| "str_exn (Failure msg) = msg"

text \<open>The two pipelines and the answer job, each with the arguments its thread is given.\<close>

datatype job =
    PdfJob string string
  | VideoJob string string
  | AnswerJob string string

fun job_session :: "job \<Rightarrow> string" where
  "job_session (PdfJob session_id filepath) = session_id"
| "job_session (VideoJob session_id filepath) = session_id"
| "job_session (AnswerJob session_id question) = session_id"

text \<open>
  The state of the process: the two global dictionaries, the files on disk, and the
  threads started and not yet run. \<open>flag_writes\<close> is a ghost field: it records every
  assignment to an \<open>is_processing\<close> entry, in program order, so that what a handler does
  to the flag on the way is visible after it has returned.
\<close>

record world =
  chat_sessions :: "string \<rightharpoonup> session_data"
  processing_status :: "string \<rightharpoonup> string"
  files :: "string set"
  threads :: "job list"
  flag_writes :: "(string \<times> bool) list"

definition initial_world :: world where
  "initial_world =
     \<lparr>chat_sessions = Map.empty, processing_status = Map.empty, files = {},
      threads = [], flag_writes = []\<rparr>"

text \<open>The three directories of \<open>config.py\<close>, which is not among the sources.\<close>

record config =
  upload_folder_pdf :: string
  upload_folder_video :: string
  upload_folder_temp :: string

subsection \<open>Statements\<close>

text \<open>
  A statement runs on the state and either completes or raises; the state it leaves is
  returned in both cases, since what was written before a raise stays written.
\<close>

type_synonym stmt = "world \<Rightarrow> exn option \<times> world"

definition seq :: "stmt \<Rightarrow> stmt \<Rightarrow> stmt" where
  "seq s1 s2 w = (case s1 w of (Some e, w1) \<Rightarrow> (Some e, w1) | (None, w1) \<Rightarrow> s2 w1)"

text \<open>A call whose outcome does not depend on the state, and the rest of the block.\<close>

definition call :: "exn + 'a \<Rightarrow> ('a \<Rightarrow> stmt) \<Rightarrow> stmt" where
  "call r k w = (case r of Inl e \<Rightarrow> (Some e, w) | Inr v \<Rightarrow> k v w)"

text \<open>A read of the state, and the rest of the block.\<close>

definition reading :: "(world \<Rightarrow> exn + 'a) \<Rightarrow> ('a \<Rightarrow> stmt) \<Rightarrow> stmt" where
  "reading f k w = (case f w of Inl e \<Rightarrow> (Some e, w) | Inr v \<Rightarrow> k v w)"

text \<open>
  \<open>try: body except Exception as e: handler(e) finally: final\<close>. The handler runs on the
  state the body left. The final block always runs; an exception it raises replaces one
  still pending from the handler.
\<close>

definition try_except_finally :: "stmt \<Rightarrow> (exn \<Rightarrow> stmt) \<Rightarrow> stmt \<Rightarrow> stmt" where
  "try_except_finally body handler final w =
     (case body w of (r1, w1) \<Rightarrow>
        (case (case r1 of None \<Rightarrow> (None, w1) | Some e \<Rightarrow> handler e w1) of (r2, w2) \<Rightarrow>
           (case final w2 of
              (Some e, w3) \<Rightarrow> (Some e, w3)
            | (None, w3) \<Rightarrow> (r2, w3))))"

subsection \<open>Reads and writes of the two dictionaries\<close>

text \<open>\<open>chat_sessions[session_id]\<close> raises \<open>KeyError\<close> on an unknown key.\<close>

definition get_session :: "string \<Rightarrow> world \<Rightarrow> exn + session_data" where
  "get_session session_id w =
     (case chat_sessions w session_id of None \<Rightarrow> Inl (KeyError session_id) | Some s \<Rightarrow> Inr s)"

definition get_is_processing :: "string \<Rightarrow> world \<Rightarrow> exn + bool" where
  "get_is_processing session_id w = map_sum id is_processing (get_session session_id w)"

definition get_extracted_text :: "string \<Rightarrow> world \<Rightarrow> exn + string" where
  "get_extracted_text session_id w = map_sum id extracted_text (get_session session_id w)"

definition get_messages_list :: "string \<Rightarrow> world \<Rightarrow> exn + message list" where
  "get_messages_list session_id w = map_sum id messages (get_session session_id w)"

definition put_session :: "string \<Rightarrow> session_data \<Rightarrow> world \<Rightarrow> world" where
  "put_session session_id s w = w\<lparr>chat_sessions := (chat_sessions w)(session_id \<mapsto> s)\<rparr>"

text \<open>\<open>chat_sessions[session_id]['is_processing'] = b\<close>.\<close>

definition set_is_processing :: "string \<Rightarrow> bool \<Rightarrow> stmt" where
  "set_is_processing session_id b w =
     (case get_session session_id w of
        Inl e \<Rightarrow> (Some e, w)
      | Inr s \<Rightarrow>
          (None, (put_session session_id (s\<lparr>is_processing := b\<rparr>) w)
                   \<lparr>flag_writes := flag_writes w @ [(session_id, b)]\<rparr>))"

text \<open>\<open>chat_sessions[session_id]['extracted_text'] = text\<close>.\<close>

definition set_extracted_text :: "string \<Rightarrow> string \<Rightarrow> stmt" where
  "set_extracted_text session_id text w =
     (case get_session session_id w of
        Inl e \<Rightarrow> (Some e, w)
      | Inr s \<Rightarrow> (None, put_session session_id (s\<lparr>extracted_text := text\<rparr>) w))"

text \<open>\<open>chat_sessions[session_id]['segments'] = segs\<close>.\<close>

definition set_segments :: "string \<Rightarrow> segment list \<Rightarrow> stmt" where
  "set_segments session_id segs w =
     (case get_session session_id w of
        Inl e \<Rightarrow> (Some e, w)
      | Inr s \<Rightarrow> (None, put_session session_id (s\<lparr>segments := Some segs\<rparr>) w))"

text \<open>\<open>chat_sessions[session_id]['messages'].append(m)\<close>.\<close>

definition append_message :: "string \<Rightarrow> message \<Rightarrow> stmt" where
  "append_message session_id m w =
     (case get_session session_id w of
        Inl e \<Rightarrow> (Some e, w)
      | Inr s \<Rightarrow> (None, put_session session_id (s\<lparr>messages := messages s @ [m]\<rparr>) w))"

text \<open>\<open>processing_status[session_id] = text\<close>: an assignment to a dictionary never raises.\<close>

definition set_status :: "string \<Rightarrow> string \<Rightarrow> stmt" where
  "set_status session_id text w =
     (None, w\<lparr>processing_status := (processing_status w)(session_id \<mapsto> text)\<rparr>)"

text \<open>\<open>threading.Thread(target, args).start()\<close>: the job waits in \<open>threads\<close> until it is run.\<close>

definition start_thread :: "job \<Rightarrow> stmt" where
  "start_thread j w = (None, w\<lparr>threads := threads w @ [j]\<rparr>)"

text \<open>
  \<open>file.save(filepath)\<close>. Whether the write fails is the environment's: \<open>file_save\<close>
  gives the exception, if any, for a path.
\<close>

definition save_file :: "(string \<Rightarrow> exn option) \<Rightarrow> string \<Rightarrow> stmt" where
  "save_file file_save filepath w =
     (case file_save filepath of
        Some e \<Rightarrow> (Some e, w)
      | None \<Rightarrow> (None, w\<lparr>files := insert filepath (files w)\<rparr>))"

text \<open>\<open>os.remove(path)\<close>: raises when there is no such file.\<close>

definition os_remove :: "string \<Rightarrow> stmt" where
  "os_remove path w =
     (if path \<in> files w then (None, w\<lparr>files := files w - {path}\<rparr>)
      else (Some (Failure (''[Errno 2] No such file or directory: '' @ [CHR 0x27] @ path @ [CHR 0x27])), w))"

section \<open>String operations of the upload handler\<close>

definition upper_letters :: string where
  "upper_letters = ''ABCDEFGHIJKLMNOPQRSTUVWXYZ''"

definition lower_letters :: string where
  "lower_letters = ''abcdefghijklmnopqrstuvwxyz''"

text \<open>\<open>str.lower\<close> on ASCII: the capital letters move, every other character stays.\<close>

definition lower_char :: "char \<Rightarrow> char" where
  "lower_char c = (case map_of (zip upper_letters lower_letters) c of None \<Rightarrow> c | Some d \<Rightarrow> d)"

definition lower :: "string \<Rightarrow> string" where
  "lower s = map lower_char s"

text \<open>
  \<open>s.rsplit('.', 1)[1]\<close>: the text after the last dot. Without a dot the split has one
  element and the index raises \<open>IndexError\<close>.
\<close>

definition rsplit_dot_1 :: "string \<Rightarrow> exn + string" where
  "rsplit_dot_1 s =
     (if CHR ''.'' \<in> set s then Inr (rev (takeWhile (\<lambda>c. c \<noteq> CHR ''.'') (rev s)))
      else Inl IndexError)"

text \<open>\<open>os.path.join(d, f)\<close> on POSIX, for two components.\<close>

definition path_join :: "string \<Rightarrow> string \<Rightarrow> string" where
  "path_join d f =
     (if f \<noteq> [] \<and> hd f = CHR ''/'' then f
      else if d = [] \<or> last d = CHR ''/'' then d @ f
      else d @ ''/'' @ f)"

section \<open>The HTTP handlers\<close>

datatype body =
    ErrorBody string
  | MessageBody string
  | StatusBody string bool
  | MessagesBody "message list"
  | Page

text \<open>A response: status code and body. A handler returns one or raises.\<close>

type_synonym response = "nat \<times> body"

type_synonym handled = "(exn + response) \<times> world"

text \<open>An exception that leaves a view is answered by the framework with status 500.\<close>

definition http_response :: "exn + response \<Rightarrow> response" where
  "http_response r = (case r of Inl e \<Rightarrow> (500, Page) | Inr resp \<Rightarrow> resp)"

text \<open>\<open>not session_id\<close>: the cookie holds no token, or an empty one.\<close>

definition no_token :: "string option \<Rightarrow> bool" where
  "no_token tok = (case tok of None \<Rightarrow> True | Some session_id \<Rightarrow> session_id = [])"

text \<open>After a statement: the response if it completed, the exception if it raised.\<close>

definition respond :: "response \<Rightarrow> exn option \<times> world \<Rightarrow> handled" where
  "respond resp r = (case r of (Some e, w) \<Rightarrow> (Inl e, w) | (None, w) \<Rightarrow> (Inr resp, w))"

subsection \<open>\<open>index\<close>\<close>

text \<open>
  \<open>fresh\<close> is the value of \<open>uuid.uuid4()\<close>. The token the cookie holds afterwards is
  returned with the page.
\<close>

definition index :: "string option \<Rightarrow> string \<Rightarrow> world \<Rightarrow> (string \<times> response) \<times> world" where
  "index tok fresh w =
     (let session_id = (case tok of None \<Rightarrow> fresh | Some t \<Rightarrow> t);
          w1 = (if chat_sessions w session_id = None
                then put_session session_id
                       \<lparr>messages = [], extracted_text = [], segments = None,
                        is_processing = False\<rparr> w
                else w)
      in ((session_id, (200, Page)), w1))"

subsection \<open>\<open>upload_file\<close>\<close>

text \<open>The request: the session token of the cookie, and the name of the part \<open>file\<close> if any.\<close>

record upload_request =
  upload_session_id :: "string option"
  upload_filename :: "string option"

text \<open>The body of the \<open>try\<close> block: it returns a response or raises.\<close>

definition upload_try_body ::
  "config \<Rightarrow> (string \<Rightarrow> string) \<Rightarrow> (string \<Rightarrow> exn option) \<Rightarrow> string \<Rightarrow> string \<Rightarrow> world \<Rightarrow> handled" where
  "upload_try_body cfg secure_filename file_save session_id original w =
     (let filename = secure_filename original in
      case rsplit_dot_1 filename of
        Inl e \<Rightarrow> (Inl e, w)
      | Inr ext \<Rightarrow>
          (let file_extension = lower ext in
           if file_extension = ''pdf'' then
             (let filepath = path_join (upload_folder_pdf cfg) filename in
              respond (200, MessageBody ''File uploaded successfully. Processing...'')
                (seq (save_file file_save filepath)
                     (start_thread (PdfJob session_id filepath)) w))
           else if file_extension \<in> set [''mp4'', ''mov'', ''avi'', ''mkv''] then
             (let filepath = path_join (upload_folder_video cfg) filename in
              respond (200, MessageBody ''File uploaded successfully. Processing...'')
                (seq (save_file file_save filepath)
                     (start_thread (VideoJob session_id filepath)) w))
           else
             respond (400, ErrorBody ''Unsupported file type'')
               (set_is_processing session_id False w)))"

text \<open>The \<open>try\<close> block with its \<open>except Exception\<close> clause.\<close>

definition upload_try ::
  "config \<Rightarrow> (string \<Rightarrow> string) \<Rightarrow> (string \<Rightarrow> exn option) \<Rightarrow> string \<Rightarrow> string \<Rightarrow> world \<Rightarrow> handled" where
  "upload_try cfg secure_filename file_save session_id original w =
     (case upload_try_body cfg secure_filename file_save session_id original w of
        (Inr resp, w1) \<Rightarrow> (Inr resp, w1)
      | (Inl e, w1) \<Rightarrow>
          respond (500, ErrorBody (str_exn e)) (set_is_processing session_id False w1))"

text \<open>
  The handler. \<open>secure_filename\<close> is the sanitizer of the web framework and \<open>file_save\<close>
  the environment's answer to writing a file; both are parameters.
\<close>

definition upload_file ::
  "config \<Rightarrow> (string \<Rightarrow> string) \<Rightarrow> (string \<Rightarrow> exn option) \<Rightarrow> upload_request \<Rightarrow> world \<Rightarrow> handled" where
  "upload_file cfg secure_filename file_save req w =
     (case upload_filename req of
        None \<Rightarrow> (Inr (400, ErrorBody ''No file provided''), w)
      | Some original \<Rightarrow>
          if original = [] then (Inr (400, ErrorBody ''No file selected''), w)
          else
            (case upload_session_id req of
               None \<Rightarrow> (Inr (400, ErrorBody ''Session expired''), w)
             | Some session_id \<Rightarrow>
                 if session_id = [] then (Inr (400, ErrorBody ''Session expired''), w)
                 else
                   (case seq (set_is_processing session_id True)
                             (set_status session_id ''Processing your file...'') w of
                      (Some e, w1) \<Rightarrow> (Inl e, w1)
                    | (None, w1) \<Rightarrow>
                        upload_try cfg secure_filename file_save session_id original w1)))"

subsection \<open>\<open>ask_question\<close>\<close>

text \<open>
  The request: the session token, and the JSON object of the body, whose values are
  taken to be strings.
\<close>

record ask_request =
  ask_session_id :: "string option"
  ask_json :: "string \<rightharpoonup> string"

definition ask_question :: "ask_request \<Rightarrow> world \<Rightarrow> handled" where
  "ask_question req w =
     (case ask_session_id req of
        None \<Rightarrow> (Inr (400, ErrorBody ''Session expired''), w)
      | Some session_id \<Rightarrow>
          if session_id = [] \<or> chat_sessions w session_id = None
          then (Inr (400, ErrorBody ''Session expired''), w)
          else
            (case get_is_processing session_id w of
               Inl e \<Rightarrow> (Inl e, w)
             | Inr busy \<Rightarrow>
                 if busy then (Inr (400, ErrorBody ''System is still processing your file''), w)
                 else
                   (let question = (case ask_json req ''question'' of None \<Rightarrow> [] | Some q \<Rightarrow> q) in
                    if question = [] then (Inr (400, ErrorBody ''No question provided''), w)
                    else
                      (case get_extracted_text session_id w of
                         Inl e \<Rightarrow> (Inl e, w)
                       | Inr text \<Rightarrow>
                           if text = []
                           then (Inr (400, ErrorBody
                                   ''No document content available. Please upload a file first.''), w)
                           else
                             respond (200, MessageBody ''Question received. Processing...'')
                               (seq (append_message session_id \<lparr>role = User, content = question\<rparr>)
                                 (seq (set_is_processing session_id True)
                                   (seq (set_status session_id ''Generating answer...'')
                                     (start_thread (AnswerJob session_id question)))) w)))))"

subsection \<open>\<open>get_status\<close> and \<open>get_messages\<close>\<close>

definition get_status :: "string option \<Rightarrow> world \<Rightarrow> handled" where
  "get_status tok w =
     (case tok of
        None \<Rightarrow> (Inr (400, ErrorBody ''Session expired''), w)
      | Some session_id \<Rightarrow>
          if session_id = [] then (Inr (400, ErrorBody ''Session expired''), w)
          else
            (let status = (case processing_status w session_id of None \<Rightarrow> ''Ready'' | Some t \<Rightarrow> t);
                 flag = (case chat_sessions w session_id of None \<Rightarrow> False | Some s \<Rightarrow> is_processing s)
             in (Inr (200, StatusBody status flag), w)))"

definition get_messages :: "string option \<Rightarrow> world \<Rightarrow> handled" where
  "get_messages tok w =
     (case tok of
        None \<Rightarrow> (Inr (400, ErrorBody ''Session expired''), w)
      | Some session_id \<Rightarrow>
          if session_id = [] \<or> chat_sessions w session_id = None
          then (Inr (400, ErrorBody ''Session expired''), w)
          else
            (case get_messages_list session_id w of
               Inl e \<Rightarrow> (Inl e, w)
             | Inr ms \<Rightarrow> (Inr (200, MessagesBody ms), w)))"

section \<open>The background jobs\<close>

text \<open>
  The collaborators are parameters: each maps its arguments to a result or to the
  exception it raises. \<open>utils/file_processor.py\<close>, which holds \<open>process_pdf\<close> and
  \<open>extract_audio_from_video\<close>, is not among the sources.
\<close>

text \<open>
  The dictionary the transcription model returns: the key \<open>text\<close> and the key
  \<open>segments\<close>, either of which may be absent.
\<close>

record transcription =
  tr_text :: "string option"
  tr_segments :: "segment list option"

record collaborators =
  process_pdf :: "string \<Rightarrow> exn + string"
  extract_audio_from_video :: "string \<Rightarrow> string \<Rightarrow> exn + string"
  model_transcribe :: "string \<Rightarrow> exn + transcription"
  ollama_chat :: "string \<Rightarrow> exn + string"

definition success_status :: string where
  "success_status = ''File processed successfully. You can now ask questions.''"

subsection \<open>\<open>process_pdf_file\<close>\<close>

definition process_pdf_file :: "collaborators \<Rightarrow> string \<Rightarrow> string \<Rightarrow> stmt" where
  "process_pdf_file c session_id filepath =
     try_except_finally
       (call (process_pdf c filepath) (\<lambda>text.
          seq (set_extracted_text session_id text)
              (set_status session_id success_status)))
       (\<lambda>e. set_status session_id (''Error processing PDF: '' @ str_exn e))
       (set_is_processing session_id False)"

subsection \<open>\<open>transcribe_audio\<close> and \<open>process_video_file\<close>\<close>

text \<open>
  \<open>transcribe_audio\<close> of \<open>utils/whisper_transcribe.py\<close>: a failure of the model is
  raised again under a new message.
\<close>

definition transcribe_audio :: "collaborators \<Rightarrow> string \<Rightarrow> exn + transcription" where
  "transcribe_audio c audio_path =
     (case model_transcribe c audio_path of
        Inl e \<Rightarrow> Inl (Failure (''Failed to transcribe audio: '' @ str_exn e))
      | Inr result \<Rightarrow> Inr result)"

text \<open>
  Modelled from the spec: \<open>extract_audio_from_video\<close> is missing from the sources; the
  specification says it extracts an audio track into a temporary file. Its outcome is
  the collaborator's; when it returns a path, the file of that path is on disk.
\<close>

definition extract_audio :: "collaborators \<Rightarrow> string \<Rightarrow> string \<Rightarrow> (string \<Rightarrow> stmt) \<Rightarrow> stmt" where
  "extract_audio c filepath temp_dir k w =
     (case extract_audio_from_video c filepath temp_dir of
        Inl e \<Rightarrow> (Some e, w)
      | Inr audio_path \<Rightarrow> k audio_path (w\<lparr>files := insert audio_path (files w)\<rparr>))"

text \<open>\<open>transcription_result["text"]\<close>.\<close>

definition result_text :: "transcription \<Rightarrow> exn + string" where
  "result_text result = (case tr_text result of None \<Rightarrow> Inl (KeyError ''text'') | Some t \<Rightarrow> Inr t)"

text \<open>\<open>transcription_result.get("segments", [])\<close>.\<close>

definition result_segments :: "transcription \<Rightarrow> segment list" where
  "result_segments result = (case tr_segments result of None \<Rightarrow> [] | Some segs \<Rightarrow> segs)"

definition process_video_file :: "config \<Rightarrow> collaborators \<Rightarrow> string \<Rightarrow> string \<Rightarrow> stmt" where
  "process_video_file cfg c session_id filepath =
     try_except_finally
       (extract_audio c filepath (upload_folder_temp cfg) (\<lambda>audio_path.
          call (transcribe_audio c audio_path) (\<lambda>transcription_result.
            call (result_text transcription_result) (\<lambda>text.
              seq (set_extracted_text session_id text)
                (seq (set_segments session_id (result_segments transcription_result))
                  (seq (set_status session_id success_status)
                       (os_remove audio_path)))))))
       (\<lambda>e. set_status session_id (''Error processing video: '' @ str_exn e))
       (set_is_processing session_id False)"

subsection \<open>\<open>generate_answer\<close>\<close>

definition indent :: string where
  "indent = ''        ''"

text \<open>The prompt of the f-string, line by line.\<close>

definition build_prompt :: "string \<Rightarrow> string \<Rightarrow> string" where
  "build_prompt text question =
     ''\<newline>'' @ indent
       @ ''Act as if you are a chatbot and based on the following content, please answer the user''
       @ [CHR 0x27] @ ''s question.\<newline>''
     @ indent @ ''\<newline>''
     @ indent @ ''Content:\<newline>''
     @ indent @ text @ ''  # Limit context to avoid token limits\<newline>''
     @ indent @ ''\<newline>''
     @ indent @ ''Question: '' @ question @ ''\<newline>''
     @ indent @ ''\<newline>''
     @ indent @ ''Make sure and NEVER forget to provide a detailed answer in HTML format with proper formatting. \<newline>''
     @ indent @ ''Use headings, paragraphs, bullet points, and bold text (using <b></b>) where appropriate.\<newline>''
     @ indent"

definition apology :: string where
  "apology = ''Sorry, I encountered an error while processing your question: ''"

definition generate_answer :: "collaborators \<Rightarrow> string \<Rightarrow> string \<Rightarrow> stmt" where
  "generate_answer c session_id question =
     try_except_finally
       (reading (get_extracted_text session_id) (\<lambda>text.
          call (ollama_chat c (build_prompt text question)) (\<lambda>answer.
            seq (append_message session_id \<lparr>role = Assistant, content = answer\<rparr>)
                (set_status session_id ''Answer generated successfully.''))))
       (\<lambda>e. seq (set_status session_id (''Error generating answer: '' @ str_exn e))
                (append_message session_id
                   \<lparr>role = Assistant, content = apology @ str_exn e\<rparr>))
       (set_is_processing session_id False)"

section \<open>The running system\<close>

text \<open>The target of a thread, run on its arguments.\<close>

fun run_job :: "config \<Rightarrow> collaborators \<Rightarrow> job \<Rightarrow> stmt" where
  "run_job cfg c (PdfJob session_id filepath) = process_pdf_file c session_id filepath"
| "run_job cfg c (VideoJob session_id filepath) = process_video_file cfg c session_id filepath"
| "run_job cfg c (AnswerJob session_id question) = generate_answer c session_id question"

text \<open>
  What can happen to the process: a request to one of the routes, or a started thread
  running. Each is taken as one step; a job runs with the collaborators' outcomes of
  that moment. The interleaving of threads inside a step is outside this model.
\<close>

datatype event =
    GetIndex "string option" string
  | PostUpload upload_request "string \<Rightarrow> exn option"
  | PostAsk ask_request
  | GetStatus "string option"
  | GetMessages "string option"
  | RunThread nat collaborators

fun step :: "config \<Rightarrow> (string \<Rightarrow> string) \<Rightarrow> world \<Rightarrow> event \<Rightarrow> world" where
  "step cfg secure_filename w (GetIndex tok fresh) = snd (index tok fresh w)"
| "step cfg secure_filename w (PostUpload req file_save) =
     snd (upload_file cfg secure_filename file_save req w)"
| "step cfg secure_filename w (PostAsk req) = snd (ask_question req w)"
| "step cfg secure_filename w (GetStatus tok) = snd (get_status tok w)"
| "step cfg secure_filename w (GetMessages tok) = snd (get_messages tok w)"
| "step cfg secure_filename w (RunThread i c) =
     (if i < length (threads w)
      then snd (run_job cfg c (threads w ! i)
                  (w\<lparr>threads := take i (threads w) @ drop (Suc i) (threads w)\<rparr>))
      else w)"

definition run :: "config \<Rightarrow> (string \<Rightarrow> string) \<Rightarrow> event list \<Rightarrow> world" where
  "run cfg secure_filename evs = foldl (step cfg secure_filename) initial_world evs"

text \<open>The tokens the index route has left in cookies, over a run.\<close>

fun index_tokens :: "event list \<Rightarrow> string set" where
  "index_tokens [] = {}"
| "index_tokens (GetIndex tok fresh # evs) =
     insert (case tok of None \<Rightarrow> fresh | Some t \<Rightarrow> t) (index_tokens evs)"
| "index_tokens (ev # evs) = index_tokens evs"

section \<open>Invariants of the running system\<close>

text \<open>
  A statement maintains a property of the state when the property holds after it
  whenever it held before, whether the statement raises or not.
\<close>

definition maintains :: "(world \<Rightarrow> bool) \<Rightarrow> stmt \<Rightarrow> bool" where
  "maintains I st = (\<forall>w. I w \<longrightarrow> I (snd (st w)))"

text \<open>The invariant: status entries and waiting threads belong to known sessions.\<close>

definition stable :: "string set \<Rightarrow> world \<Rightarrow> bool" where
  "stable D w =
     (dom (chat_sessions w) = D
      \<and> dom (processing_status w) \<subseteq> D
      \<and> job_session ` set (threads w) \<subseteq> D)"

definition inv_for :: "string set \<Rightarrow> string \<Rightarrow> world \<Rightarrow> bool" where
  "inv_for D sid w = (sid \<in> D \<and> stable D w)"

section \<open>Example values\<close>

text \<open>A session that holds the text and the segments of an earlier video, and its state.\<close>

definition example_session :: session_data where
  "example_session =
     \<lparr>messages = [], extracted_text = ''old text'',
      segments = Some [\<lparr>seg_start = 0, seg_end = 10, seg_text = ''a''\<rparr>],
      is_processing = False\<rparr>"

definition example_world :: world where
  "example_world = initial_world\<lparr>chat_sessions := [''s1'' \<mapsto> example_session]\<rparr>"

text \<open>Collaborators that all succeed, and collaborators of which three fail.\<close>

definition example_collaborators :: collaborators where
  "example_collaborators =
     \<lparr>process_pdf = (\<lambda>path. Inr ''pdf text''),
      extract_audio_from_video = (\<lambda>path dir. Inr (dir @ ''/audio.wav'')),
      model_transcribe = (\<lambda>path. Inr \<lparr>tr_text = Some ''spoken'',
        tr_segments = Some [\<lparr>seg_start = 0, seg_end = 4, seg_text = ''spoken''\<rparr>]\<rparr>),
      ollama_chat = (\<lambda>prompt. Inr ''<p>answer</p>'')\<rparr>"

definition failing_collaborators :: collaborators where
  "failing_collaborators =
     \<lparr>process_pdf = (\<lambda>path. Inl (Failure ''bad pdf'')),
      extract_audio_from_video = (\<lambda>path dir. Inr (dir @ ''/audio.wav'')),
      model_transcribe = (\<lambda>path. Inl (Failure ''no model'')),
      ollama_chat = (\<lambda>prompt. Inl (Failure ''connection refused''))\<rparr>"

definition example_config :: config where
  "example_config =
     \<lparr>upload_folder_pdf = ''uploads/pdf'', upload_folder_video = ''uploads/video'',
      upload_folder_temp = ''uploads/temp''\<rparr>"

text \<open>A question to the example session.\<close>

definition example_question :: ask_request where
  "example_question = \<lparr>ask_session_id = Some ''s1'', ask_json = [''question'' \<mapsto> ''What?'']\<rparr>"

section \<open>The sanitizer of the web framework\<close>

text \<open>
  \<open>werkzeug.utils.secure_filename\<close>, which the upload handler calls, is library code. This
  is what it does to an ASCII name on a POSIX system, step by step: path separators
  become spaces; the name is split at runs of whitespace and joined again with
  underscores; every character other than a letter, a digit, \<open>_\<close>, \<open>.\<close> and \<open>-\<close> is
  dropped; dots and underscores are stripped from both ends.
\<close>

definition whitespace :: string where
  "whitespace =
     [CHR 0x09, CHR 0x0A, CHR 0x0B, CHR 0x0C, CHR 0x0D, CHR 0x1C, CHR 0x1D, CHR 0x1E, CHR 0x1F,
      CHR 0x20]"

text \<open>
  \<open>s.split()\<close>: the maximal runs of characters that are not whitespace; \<open>word\<close> is
  the run read so far.
\<close>

fun split_words :: "string \<Rightarrow> string \<Rightarrow> string list" where
  "split_words word [] = (if word = [] then [] else [word])"
| "split_words word (c # cs) =
     (if c \<in> set whitespace
      then (if word = [] then split_words [] cs else word # split_words [] cs)
      else split_words (word @ [c]) cs)"

definition str_split :: "string \<Rightarrow> string list" where
  "str_split s = split_words [] s"

definition decimal_digits :: string where
  "decimal_digits = ''0123456789''"

text \<open>The characters the pattern \<open>[^A-Za-z0-9_.-]\<close> leaves in place.\<close>

definition filename_chars :: string where
  "filename_chars = upper_letters @ lower_letters @ decimal_digits @ ''_.-''"

text \<open>\<open>s.strip(chars)\<close>.\<close>

definition str_strip :: "string \<Rightarrow> string \<Rightarrow> string" where
  "str_strip chars s =
     rev (dropWhile (\<lambda>c. c \<in> set chars) (rev (dropWhile (\<lambda>c. c \<in> set chars) s)))"

definition werkzeug_secure_filename :: "string \<Rightarrow> string" where
  "werkzeug_secure_filename filename =
     (let spaced = map (\<lambda>c. if c = CHR ''/'' then CHR '' '' else c) filename;
          joined = str_join ''_'' (str_split spaced);
          kept = filter (\<lambda>c. c \<in> set filename_chars) joined
      in str_strip ''._'' kept)"

text \<open>Letters and digits.\<close>

definition alnum :: "char \<Rightarrow> bool" where
  "alnum c = (c \<in> set (upper_letters @ lower_letters @ decimal_digits))"

text \<open>A file system on which every write succeeds.\<close>

definition writable :: "string \<Rightarrow> exn option" where
  "writable path = None"

section \<open>What a session holds of segments\<close>

text \<open>The segments of a session: none when the session or its key \<open>segments\<close> is absent.\<close>

definition session_segments :: "world \<Rightarrow> string \<Rightarrow> segment list option" where
  "session_segments w session_id =
     (case chat_sessions w session_id of None \<Rightarrow> None | Some s \<Rightarrow> segments s)"

text \<open>A visit, a video upload and its job, then a PDF upload and its job.\<close>

definition video_then_pdf :: "event list" where
  "video_then_pdf =
     [GetIndex None ''s1'',
      PostUpload \<lparr>upload_session_id = Some ''s1'', upload_filename = Some ''talk.mp4''\<rparr> writable,
      RunThread 0 example_collaborators,
      PostUpload \<lparr>upload_session_id = Some ''s1'', upload_filename = Some ''paper.pdf''\<rparr> writable,
      RunThread 0 example_collaborators]"

text \<open>A statement that leaves the segments of every session as they were.\<close>

definition keeps_segments :: "stmt \<Rightarrow> bool" where
  "keeps_segments st = (\<forall>sid X. maintains (\<lambda>w. session_segments w sid = X) st)"

section \<open>Example uploads\<close>

text \<open>The response to an accepted upload, and an upload by the example session.\<close>

definition accepted :: response where
  "accepted = (200, MessageBody ''File uploaded successfully. Processing...'')"

definition example_upload :: "string \<Rightarrow> upload_request" where
  "example_upload name = \<lparr>upload_session_id = Some ''s1'', upload_filename = Some name\<rparr>"

section \<open>Properties of the timestamp lookup\<close>





lemma length_str_nat: "1 \<le> length (str_nat n)"
  by (subst str_nat.simps) simp






section \<open>The invariant over runs\<close>

lemma maintainsD: "maintains I st \<Longrightarrow> I w \<Longrightarrow> I (snd (st w))"
  by (simp add: maintains_def)

lemma maintains_seq: "maintains I s1 \<Longrightarrow> maintains I s2 \<Longrightarrow> maintains I (seq s1 s2)"
  unfolding maintains_def seq_def
  by (auto split: prod.splits option.splits)

lemma maintains_call: "(\<And>v. maintains I (k v)) \<Longrightarrow> maintains I (call r k)"
  unfolding maintains_def call_def by (auto split: sum.splits)

lemma maintains_reading: "(\<And>v. maintains I (k v)) \<Longrightarrow> maintains I (reading f k)"
  unfolding maintains_def reading_def by (auto split: sum.splits)

lemma maintains_try:
  assumes "maintains I body" and "\<And>e. maintains I (handler e)" and "maintains I final"
  shows "maintains I (try_except_finally body handler final)"
proof -
  { fix w assume i: "I w"
    obtain r1 w1 where b: "body w = (r1, w1)" by (cases "body w")
    have i1: "I w1" using maintainsD [OF assms(1) i] b by simp
    obtain r2 w2 where h: "(case r1 of None \<Rightarrow> (None, w1) | Some e \<Rightarrow> handler e w1) = (r2, w2)"
      by (cases "(case r1 of None \<Rightarrow> (None, w1) | Some e \<Rightarrow> handler e w1)")
    have i2: "I w2"
    proof (cases r1)
      case None then show ?thesis using h i1 by simp
    next
      case (Some e)
      then show ?thesis using h maintainsD [OF assms(2) i1, of e] by simp
    qed
    obtain r3 w3 where f: "final w2 = (r3, w3)" by (cases "final w2")
    have i3: "I w3" using maintainsD [OF assms(3) i2] f by simp
    have "snd (try_except_finally body handler final w) = w3"
      using b h f by (simp add: try_except_finally_def split: option.splits)
    then have "I (snd (try_except_finally body handler final w))" using i3 by simp }
  then show ?thesis by (simp add: maintains_def)
qed

lemma maintains_set_is_processing: "maintains (inv_for D sid) (set_is_processing sid' b)"
  by (auto simp: maintains_def inv_for_def stable_def set_is_processing_def
      get_session_def put_session_def split: option.splits)

lemma maintains_set_extracted_text: "maintains (inv_for D sid) (set_extracted_text sid' t)"
  by (auto simp: maintains_def inv_for_def stable_def set_extracted_text_def
      get_session_def put_session_def split: option.splits)

lemma maintains_set_segments: "maintains (inv_for D sid) (set_segments sid' t)"
  by (auto simp: maintains_def inv_for_def stable_def set_segments_def
      get_session_def put_session_def split: option.splits)

lemma maintains_append_message: "maintains (inv_for D sid) (append_message sid' t)"
  by (auto simp: maintains_def inv_for_def stable_def append_message_def
      get_session_def put_session_def split: option.splits)

lemma maintains_set_status: "maintains (inv_for D sid) (set_status sid t)"
  by (auto simp: maintains_def inv_for_def stable_def set_status_def)

lemma maintains_start_thread: "job_session j = sid \<Longrightarrow> maintains (inv_for D sid) (start_thread j)"
  by (auto simp: maintains_def inv_for_def stable_def start_thread_def)

lemma maintains_save_file: "maintains (inv_for D sid) (save_file fs p)"
  by (auto simp: maintains_def inv_for_def stable_def save_file_def split: option.splits)

lemma maintains_os_remove: "maintains (inv_for D sid) (os_remove p)"
  by (auto simp: maintains_def inv_for_def stable_def os_remove_def)

lemma maintains_extract_audio:
  "(\<And>p. maintains (inv_for D sid) (k p)) \<Longrightarrow> maintains (inv_for D sid) (extract_audio c fp d k)"
  unfolding maintains_def extract_audio_def
  by (auto split: sum.splits simp: inv_for_def stable_def)

lemmas maintains_intros = maintains_seq maintains_call maintains_reading maintains_try
  maintains_set_is_processing maintains_set_extracted_text maintains_set_segments
  maintains_append_message maintains_set_status maintains_start_thread maintains_save_file
  maintains_os_remove maintains_extract_audio

lemma maintains_pdf: "maintains (inv_for D sid) (process_pdf_file c sid fp)"
  unfolding process_pdf_file_def by (intro maintains_intros)

lemma maintains_video: "maintains (inv_for D sid) (process_video_file cfg c sid fp)"
  unfolding process_video_file_def by (intro maintains_intros)

lemma maintains_answer: "maintains (inv_for D sid) (generate_answer c sid q)"
  unfolding generate_answer_def by (intro maintains_intros)

lemma maintains_run_job: "maintains (inv_for D (job_session j)) (run_job cfg c j)"
  by (cases j) (simp_all add: maintains_pdf maintains_video maintains_answer)

lemma inv_forD: "maintains (inv_for D sid) st \<Longrightarrow> inv_for D sid w \<Longrightarrow> inv_for D sid (snd (st w))"
  by (simp add: maintains_def)

lemma snd_respond: "snd (respond resp x) = snd x"
  by (simp add: respond_def split: prod.splits option.splits)

lemma upload_try_body_inv:
  assumes "inv_for D sid w"
  shows "inv_for D sid (snd (upload_try_body cfg sf fs sid orig w))"
proof -
  have a: "\<And>j. job_session j = sid \<Longrightarrow>
      inv_for D sid (snd (seq (save_file fs p) (start_thread j) w))" for p
    by (rule inv_forD [OF _ assms]) (intro maintains_intros)
  have b: "inv_for D sid (snd (set_is_processing sid False w))"
    by (rule inv_forD [OF maintains_set_is_processing assms])
  show ?thesis
    using assms a b
    by (simp add: upload_try_body_def Let_def snd_respond split: sum.splits)
qed

lemma upload_try_inv:
  assumes "inv_for D sid w"
  shows "inv_for D sid (snd (upload_try cfg sf fs sid orig w))"
proof -
  obtain r w1 where b: "upload_try_body cfg sf fs sid orig w = (r, w1)"
    by (cases "upload_try_body cfg sf fs sid orig w")
  have i1: "inv_for D sid w1" using upload_try_body_inv [OF assms, of cfg sf fs orig] b by simp
  have "inv_for D sid (snd (set_is_processing sid False w1))"
    by (rule inv_forD [OF maintains_set_is_processing i1])
  then show ?thesis using b i1
    by (simp add: upload_try_def snd_respond split: sum.splits)
qed

lemma upload_file_stable:
  assumes "stable D w"
  shows "stable D (snd (upload_file cfg sf fs req w))"
proof (cases "upload_filename req")
  case None
  then show ?thesis using assms by (simp add: upload_file_def)
next
  case (Some orig)
  show ?thesis
  proof (cases "upload_session_id req")
    case None
    then show ?thesis using assms Some by (simp add: upload_file_def)
  next
    case sid: (Some sid)
    show ?thesis
    proof (cases "chat_sessions w sid")
      case None
      then show ?thesis using assms Some sid
        by (simp add: upload_file_def seq_def set_is_processing_def get_session_def)
    next
      case s: (Some s)
      then have i: "inv_for D sid w" using assms by (auto simp: inv_for_def stable_def)
      obtain r w1 where m: "seq (set_is_processing sid True)
            (set_status sid ''Processing your file...'') w = (r, w1)"
        by (cases "seq (set_is_processing sid True) (set_status sid ''Processing your file...'') w")
      have "inv_for D sid (snd (seq (set_is_processing sid True)
            (set_status sid ''Processing your file...'') w))"
        by (rule inv_forD [OF _ i]) (intro maintains_intros)
      then have i1: "inv_for D sid w1" using m by simp
      have "inv_for D sid (snd (upload_try cfg sf fs sid orig w1))"
        by (rule upload_try_inv [OF i1])
      then show ?thesis using assms Some sid m i1
        by (auto simp: upload_file_def inv_for_def split: option.splits)
    qed
  qed
qed

lemma ask_question_stable:
  assumes "stable D w"
  shows "stable D (snd (ask_question req w))"
proof (cases "ask_session_id req")
  case None
  then show ?thesis using assms by (simp add: ask_question_def)
next
  case sid: (Some sid)
  show ?thesis
  proof (cases "chat_sessions w sid")
    case None
    then show ?thesis using assms sid by (simp add: ask_question_def)
  next
    case s: (Some s)
    then have i: "inv_for D sid w" using assms by (auto simp: inv_for_def stable_def)
    have "inv_for D sid (snd (seq (append_message sid m)
            (seq (set_is_processing sid True)
              (seq (set_status sid ''Generating answer...'')
                (start_thread (AnswerJob sid q)))) w))" for m q
      by (rule inv_forD [OF _ i]) (intro maintains_intros, simp)
    then show ?thesis using assms sid s
      by (auto simp: ask_question_def Let_def snd_respond inv_for_def get_is_processing_def
          get_extracted_text_def get_session_def split: option.splits)
  qed
qed

lemma get_status_same: "snd (get_status tok w) = w"
  by (simp add: get_status_def Let_def split: option.splits)

lemma get_messages_same: "snd (get_messages tok w) = w"
  by (simp add: get_messages_def get_messages_list_def get_session_def split: option.splits)

lemma index_stable:
  assumes "stable D w"
  shows "stable (insert (case tok of None \<Rightarrow> fresh | Some t \<Rightarrow> t) D) (snd (index tok fresh w))"
  using assms by (auto simp: index_def Let_def stable_def put_session_def)

lemma run_thread_stable:
  assumes "stable D w"
  shows "stable D (step cfg sf w (RunThread i c))"
proof (cases "i < length (threads w)")
  case False
  then show ?thesis using assms by simp
next
  case True
  let ?j = "threads w ! i"
  let ?w = "w\<lparr>threads := take i (threads w) @ drop (Suc i) (threads w)\<rparr>"
  have "?j \<in> set (threads w)" using True by simp
  then have k: "job_session ?j \<in> D" using assms by (auto simp: stable_def)
  have "set (take i (threads w) @ drop (Suc i) (threads w)) \<subseteq> set (threads w)"
    by (auto dest: in_set_takeD in_set_dropD)
  then have "job_session ` set (take i (threads w) @ drop (Suc i) (threads w))
      \<subseteq> job_session ` set (threads w)"
    by (rule image_mono)
  moreover have "job_session ` set (threads w) \<subseteq> D" using assms by (simp add: stable_def)
  ultimately have "job_session ` set (take i (threads w) @ drop (Suc i) (threads w)) \<subseteq> D"
    by (rule order_trans)
  then have "stable D ?w" using assms by (simp add: stable_def)
  with k have "inv_for D (job_session ?j) ?w" by (simp add: inv_for_def)
  then have "inv_for D (job_session ?j) (snd (run_job cfg c ?j ?w))"
    by (rule inv_forD [OF maintains_run_job])
  then show ?thesis using True by (simp add: inv_for_def)
qed

lemma step_stable:
  assumes "stable D w"
  shows "stable (D \<union> index_tokens [ev]) (step cfg sf w ev)"
proof (cases ev)
  case (GetIndex tok fresh)
  then show ?thesis using index_stable [OF assms, where tok = tok and fresh = fresh] by simp
next
  case (PostUpload req fs)
  then show ?thesis using upload_file_stable [OF assms] by simp
next
  case (PostAsk req)
  then show ?thesis using ask_question_stable [OF assms] by simp
next
  case (GetStatus tok)
  then show ?thesis using assms by (simp add: get_status_same)
next
  case (GetMessages tok)
  then show ?thesis using assms by (simp add: get_messages_same)
next
  case (RunThread i c)
  then show ?thesis using run_thread_stable [OF assms] by simp
qed

lemma index_tokens_Cons: "index_tokens (ev # evs) = index_tokens [ev] \<union> index_tokens evs"
  by (cases ev) simp_all

lemma foldl_step_stable:
  "stable D w \<Longrightarrow> stable (D \<union> index_tokens evs) (foldl (step cfg sf) w evs)"
proof (induction evs arbitrary: D w)
  case Nil
  then show ?case by simp
next
  case (Cons ev evs)
  have "stable (D \<union> index_tokens [ev]) (step cfg sf w ev)"
    by (rule step_stable [OF Cons.prems])
  then have "stable ((D \<union> index_tokens [ev]) \<union> index_tokens evs)
      (foldl (step cfg sf) (step cfg sf w ev) evs)"
    by (rule Cons.IH)
  then show ?case by (simp add: index_tokens_Cons [of ev evs] Un_assoc)
qed

lemma run_stable: "stable (index_tokens evs) (run cfg sf evs)"
  using foldl_step_stable [of "{}" initial_world evs cfg sf]
  by (simp add: run_def stable_def initial_world_def)

section \<open>The question handler\<close>

lemmas stmt_defs = seq_def call_def reading_def try_except_finally_def

lemmas store_defs = get_session_def get_is_processing_def get_extracted_text_def
  get_messages_list_def put_session_def set_is_processing_def set_extracted_text_def
  set_segments_def append_message_def set_status_def start_thread_def

lemma ask_question_eval:
  "ask_question req w =
     (case ask_session_id req of
        None \<Rightarrow> (Inr (400, ErrorBody ''Session expired''), w)
      | Some sid \<Rightarrow>
          (case (if sid = [] then None else chat_sessions w sid) of
             None \<Rightarrow> (Inr (400, ErrorBody ''Session expired''), w)
           | Some s \<Rightarrow>
               (let question = (case ask_json req ''question'' of None \<Rightarrow> [] | Some q \<Rightarrow> q) in
                if is_processing s
                then (Inr (400, ErrorBody ''System is still processing your file''), w)
                else if question = []
                then (Inr (400, ErrorBody ''No question provided''), w)
                else if extracted_text s = []
                then (Inr (400, ErrorBody
                        ''No document content available. Please upload a file first.''), w)
                else (Inr (200, MessageBody ''Question received. Processing...''),
                      w\<lparr>chat_sessions := (chat_sessions w)(sid \<mapsto>
                           s\<lparr>messages := messages s @ [\<lparr>role = User, content = question\<rparr>],
                             is_processing := True\<rparr>),
                        processing_status :=
                          (processing_status w)(sid \<mapsto> ''Generating answer...''),
                        threads := threads w @ [AnswerJob sid question],
                        flag_writes := flag_writes w @ [(sid, True)]\<rparr>))))"
  by (auto simp: ask_question_def respond_def stmt_defs store_defs Let_def
      split: option.splits)

text \<open>
  Claim C1. The question handler checks, in this order: the session token is there and
  known to the store; the session is not processing; the question is not empty; the
  session's extracted text is not empty. Each check that fails answers 400 with a
  message of its own (the four messages differ) and returns the state as it was, so a
  busy session gets no message appended. Only when all four pass is the user message
  appended, the flag set, the status set to \<open>Generating answer...\<close> and the answer job
  started. The handler never raises.
\<close>

theorem ask_question_checks:
  "ask_question req w =
     (case ask_session_id req of
        None \<Rightarrow> (Inr (400, ErrorBody ''Session expired''), w)
      | Some sid \<Rightarrow>
          (case (if sid = [] then None else chat_sessions w sid) of
             None \<Rightarrow> (Inr (400, ErrorBody ''Session expired''), w)
           | Some s \<Rightarrow>
               (let question = (case ask_json req ''question'' of None \<Rightarrow> [] | Some q \<Rightarrow> q) in
                if is_processing s
                then (Inr (400, ErrorBody ''System is still processing your file''), w)
                else if question = []
                then (Inr (400, ErrorBody ''No question provided''), w)
                else if extracted_text s = []
                then (Inr (400, ErrorBody
                        ''No document content available. Please upload a file first.''), w)
                else (Inr (200, MessageBody ''Question received. Processing...''),
                      w\<lparr>chat_sessions := (chat_sessions w)(sid \<mapsto>
                           s\<lparr>messages := messages s @ [\<lparr>role = User, content = question\<rparr>],
                             is_processing := True\<rparr>),
                        processing_status :=
                          (processing_status w)(sid \<mapsto> ''Generating answer...''),
                        threads := threads w @ [AnswerJob sid question],
                        flag_writes := flag_writes w @ [(sid, True)]\<rparr>))))
   \<and> distinct [''Session expired'', ''System is still processing your file'',
        ''No question provided'', ''No document content available. Please upload a file first.'']"
  using ask_question_eval [of req w] by simp

section \<open>The background jobs, run on a known session\<close>

text \<open>
  Claim C3. A run of the PDF job on a session of the store: when the extractor returns a
  text, that text becomes the session's \<open>extracted_text\<close> (so a non-empty result is stored
  non-empty) and the status becomes the success message; when the extractor fails, the
  status becomes \<open>Error processing PDF: \<close> followed by the failure's text (which holds
  the word \<open>Error\<close> and the reason) and nothing is raised. On both paths the flag is
  cleared, and the messages of every session stay as they were.
\<close>

theorem pdf_job_outcome:
  assumes "chat_sessions w sid = Some s"
  shows "process_pdf_file c sid fp w =
     (case process_pdf c fp of
        Inr text \<Rightarrow>
          (None, w\<lparr>chat_sessions := (chat_sessions w)(sid \<mapsto>
                       s\<lparr>extracted_text := text, is_processing := False\<rparr>),
                   processing_status := (processing_status w)(sid \<mapsto> success_status),
                   flag_writes := flag_writes w @ [(sid, False)]\<rparr>)
      | Inl e \<Rightarrow>
          (None, w\<lparr>chat_sessions := (chat_sessions w)(sid \<mapsto> s\<lparr>is_processing := False\<rparr>),
                   processing_status :=
                     (processing_status w)(sid \<mapsto> ''Error processing PDF: '' @ str_exn e),
                   flag_writes := flag_writes w @ [(sid, False)]\<rparr>))
   \<and> fst (process_pdf_file c sid fp w) = None
   \<and> map_option is_processing (chat_sessions (snd (process_pdf_file c sid fp w)) sid) = Some False
   \<and> map_option messages \<circ> chat_sessions (snd (process_pdf_file c sid fp w))
       = map_option messages \<circ> chat_sessions w
   \<and> sublist ''Error'' (''Error processing PDF: '' @ reason)
   \<and> sublist reason (''Error processing PDF: '' @ reason)
   \<and> success_status = ''File processed successfully. You can now ask questions.''"
proof -
  have a: "process_pdf_file c sid fp w =
     (case process_pdf c fp of
        Inr text \<Rightarrow>
          (None, w\<lparr>chat_sessions := (chat_sessions w)(sid \<mapsto>
                       s\<lparr>extracted_text := text, is_processing := False\<rparr>),
                   processing_status := (processing_status w)(sid \<mapsto> success_status),
                   flag_writes := flag_writes w @ [(sid, False)]\<rparr>)
      | Inl e \<Rightarrow>
          (None, w\<lparr>chat_sessions := (chat_sessions w)(sid \<mapsto> s\<lparr>is_processing := False\<rparr>),
                   processing_status :=
                     (processing_status w)(sid \<mapsto> ''Error processing PDF: '' @ str_exn e),
                   flag_writes := flag_writes w @ [(sid, False)]\<rparr>))"
    using assms by (simp add: process_pdf_file_def stmt_defs store_defs split: sum.splits)
  have b: "fst (process_pdf_file c sid fp w) = None"
    by (simp add: a split: sum.splits)
  have c: "map_option is_processing (chat_sessions (snd (process_pdf_file c sid fp w)) sid) = Some False"
    by (simp add: a split: sum.splits)
  have d: "map_option messages \<circ> chat_sessions (snd (process_pdf_file c sid fp w))
       = map_option messages \<circ> chat_sessions w"
    using assms by (auto simp: a fun_eq_iff split: sum.splits)
  have e: "sublist ''Error'' (''Error processing PDF: '' @ reason)"
    using sublist_append_rightI [of "''Error''" "'' processing PDF: '' @ reason"] by simp
  have f: "sublist reason (''Error processing PDF: '' @ reason)"
    by (rule sublist_append_leftI)
  show ?thesis using a b c d e f by (simp add: success_status_def)
qed


theorem pdf_job_outcome_witness:
  "chat_sessions example_world ''s1'' = Some example_session
   \<and> process_pdf_file failing_collaborators ''s1'' ''uploads/pdf/a.pdf'' example_world =
       (None, example_world\<lparr>chat_sessions := [''s1'' \<mapsto> example_session],
                processing_status := [''s1'' \<mapsto> ''Error processing PDF: bad pdf''],
                flag_writes := [(''s1'', False)]\<rparr>)
   \<and> map_option extracted_text
        (chat_sessions (snd (process_pdf_file example_collaborators ''s1'' ''uploads/pdf/a.pdf''
           example_world)) ''s1'') = Some ''pdf text''"
proof -
  have h: "chat_sessions example_world ''s1'' = Some example_session"
    by (simp add: example_world_def)
  show ?thesis
    using h pdf_job_outcome [OF h, of failing_collaborators "''uploads/pdf/a.pdf''"]
      pdf_job_outcome [OF h, of example_collaborators "''uploads/pdf/a.pdf''"]
    by (simp add: failing_collaborators_def example_collaborators_def example_world_def
        initial_world_def example_session_def)
qed



text \<open>
  Claim C5. A run of the answer job on a session of the store: when the model answers,
  exactly one assistant message with the returned content is appended and the status is
  the success message; when the call fails, exactly one assistant message is appended,
  the apology followed by the failure's text, and the status is
  \<open>Error generating answer: \<close> followed by that text. On both paths nothing is raised
  and the flag is cleared. So an accepted question, followed by its job, leaves the
  session's messages longer by two: the user message with the question, then one
  assistant message.
\<close>

theorem answer_job_outcome:
  assumes "chat_sessions w sid = Some s"
  shows "generate_answer c sid question w =
     (let finish = (\<lambda>reply status.
            (None, w\<lparr>chat_sessions := (chat_sessions w)(sid \<mapsto>
                         s\<lparr>messages := messages s @ [\<lparr>role = Assistant, content = reply\<rparr>],
                           is_processing := False\<rparr>),
                     processing_status := (processing_status w)(sid \<mapsto> status),
                     flag_writes := flag_writes w @ [(sid, False)]\<rparr>))
      in case ollama_chat c (build_prompt (extracted_text s) question) of
           Inr answer \<Rightarrow> finish answer ''Answer generated successfully.''
         | Inl e \<Rightarrow> finish (apology @ str_exn e) (''Error generating answer: '' @ str_exn e))
   \<and> fst (generate_answer c sid question w) = None
   \<and> (fst (ask_question req w) = Inr (200, MessageBody ''Question received. Processing...'')
        \<and> ask_session_id req = Some sid \<and> ask_json req ''question'' = Some question
      \<longrightarrow> threads (snd (ask_question req w)) = threads w @ [AnswerJob sid question]
        \<and> map_option messages
             (chat_sessions (snd (generate_answer c sid question (snd (ask_question req w)))) sid)
           = Some (messages s @
               [\<lparr>role = User, content = question\<rparr>,
                \<lparr>role = Assistant,
                 content = (case ollama_chat c (build_prompt (extracted_text s) question) of
                              Inr answer \<Rightarrow> answer | Inl e \<Rightarrow> apology @ str_exn e)\<rparr>]))
   \<and> apology = ''Sorry, I encountered an error while processing your question: ''"
proof -
  have a: "generate_answer c sid question w =
     (let finish = (\<lambda>reply status.
            (None, w\<lparr>chat_sessions := (chat_sessions w)(sid \<mapsto>
                         s\<lparr>messages := messages s @ [\<lparr>role = Assistant, content = reply\<rparr>],
                           is_processing := False\<rparr>),
                     processing_status := (processing_status w)(sid \<mapsto> status),
                     flag_writes := flag_writes w @ [(sid, False)]\<rparr>))
      in case ollama_chat c (build_prompt (extracted_text s) question) of
           Inr answer \<Rightarrow> finish answer ''Answer generated successfully.''
         | Inl e \<Rightarrow> finish (apology @ str_exn e) (''Error generating answer: '' @ str_exn e))"
    if "chat_sessions w sid = Some s" for w s
    using that
    by (simp add: generate_answer_def stmt_defs store_defs Let_def split: sum.splits)
  have b: "fst (generate_answer c sid question w) = None"
    by (simp add: a [OF assms] Let_def split: sum.splits)
  have c: "threads (snd (ask_question req w)) = threads w @ [AnswerJob sid question]
        \<and> map_option messages
             (chat_sessions (snd (generate_answer c sid question (snd (ask_question req w)))) sid)
           = Some (messages s @
               [\<lparr>role = User, content = question\<rparr>,
                \<lparr>role = Assistant,
                 content = (case ollama_chat c (build_prompt (extracted_text s) question) of
                              Inr answer \<Rightarrow> answer | Inl e \<Rightarrow> apology @ str_exn e)\<rparr>])"
    if ok: "fst (ask_question req w) = Inr (200, MessageBody ''Question received. Processing...'')"
      and sid: "ask_session_id req = Some sid" and q: "ask_json req ''question'' = Some question"
  proof -
    let ?s1 = "s\<lparr>messages := messages s @ [\<lparr>role = User, content = question\<rparr>],
                 is_processing := True\<rparr>"
    let ?w1 = "w\<lparr>chat_sessions := (chat_sessions w)(sid \<mapsto> ?s1),
                  processing_status := (processing_status w)(sid \<mapsto> ''Generating answer...''),
                  threads := threads w @ [AnswerJob sid question],
                  flag_writes := flag_writes w @ [(sid, True)]\<rparr>"
    have w1: "snd (ask_question req w) = ?w1"
      using ok sid q assms ask_question_eval [of req w]
      by (simp add: Let_def split: if_splits)
    have s1: "chat_sessions ?w1 sid = Some ?s1" by simp
    show ?thesis
      unfolding w1 a [OF s1] by (simp add: Let_def split: sum.splits)
  qed
  show ?thesis using a [OF assms] b c by (simp add: apology_def)
qed


theorem answer_job_outcome_witness:
  "chat_sessions example_world ''s1'' = Some example_session
   \<and> fst (ask_question example_question example_world)
       = Inr (200, MessageBody ''Question received. Processing...'')
   \<and> ask_session_id example_question = Some ''s1''
   \<and> ask_json example_question ''question'' = Some ''What?''
   \<and> map_option messages
        (chat_sessions (snd (generate_answer example_collaborators ''s1'' ''What?''
           (snd (ask_question example_question example_world)))) ''s1'')
      = Some [\<lparr>role = User, content = ''What?''\<rparr>,
              \<lparr>role = Assistant, content = ''<p>answer</p>''\<rparr>]
   \<and> map_option messages
        (chat_sessions (snd (generate_answer failing_collaborators ''s1'' ''What?''
           (snd (ask_question example_question example_world)))) ''s1'')
      = Some [\<lparr>role = User, content = ''What?''\<rparr>,
              \<lparr>role = Assistant, content = apology @ ''connection refused''\<rparr>]"
proof -
  have h: "chat_sessions example_world ''s1'' = Some example_session"
    by (simp add: example_world_def)
  have ok: "fst (ask_question example_question example_world)
       = Inr (200, MessageBody ''Question received. Processing...'')"
    by (simp add: ask_question_eval example_question_def example_world_def
        example_session_def initial_world_def Let_def)
  have q: "ask_session_id example_question = Some ''s1''
      \<and> ask_json example_question ''question'' = Some ''What?''"
    by (simp add: example_question_def)
  show ?thesis
    using h ok q
      answer_job_outcome [OF h, of example_collaborators "''What?''" example_question]
      answer_job_outcome [OF h, of failing_collaborators "''What?''" example_question]
    by (simp add: example_collaborators_def failing_collaborators_def example_session_def
        Let_def)
qed

section \<open>Tokens the store does not know\<close>

lemma upload_known_returns:
  assumes "chat_sessions w sid = Some s" and "sid \<noteq> []" and "original \<noteq> []"
  shows "\<exists>resp. fst (upload_file cfg sf fs
           \<lparr>upload_session_id = Some sid, upload_filename = Some original\<rparr> w) = Inr resp"
  using assms
  by (simp add: upload_file_def upload_try_def upload_try_body_def respond_def stmt_defs
      store_defs save_file_def Let_def split: sum.splits option.splits)

lemma upload_unknown_raises:
  assumes "chat_sessions w sid = None" and "sid \<noteq> []" and "original \<noteq> []"
  shows "upload_file cfg sf fs \<lparr>upload_session_id = Some sid, upload_filename = Some original\<rparr> w
     = (Inl (KeyError sid), w)"
  using assms by (simp add: upload_file_def stmt_defs store_defs)

lemma run_sessions: "dom (chat_sessions (run cfg sf evs)) = index_tokens evs"
  using run_stable [of evs cfg sf] by (simp add: stable_def)

lemma run_status: "dom (processing_status (run cfg sf evs)) \<subseteq> index_tokens evs"
  using run_stable [of evs cfg sf] by (simp add: stable_def)

lemma run_unknown: "(chat_sessions (run cfg sf evs) sid = None) = (sid \<notin> index_tokens evs)"
proof -
  have "(sid \<in> dom (chat_sessions (run cfg sf evs))) = (sid \<in> index_tokens evs)"
    by (simp add: run_sessions)
  then show ?thesis unfolding domIff by blast
qed

lemma run_status_unknown:
  "chat_sessions (run cfg sf evs) sid = None \<Longrightarrow> processing_status (run cfg sf evs) sid = None"
proof -
  assume "chat_sessions (run cfg sf evs) sid = None"
  then have "sid \<notin> index_tokens evs" by (simp add: run_unknown)
  then have "sid \<notin> dom (processing_status (run cfg sf evs))"
    using run_status [of cfg sf evs] by blast
  then show ?thesis unfolding domIff by blast
qed

text \<open>
  Claim C10. An upload that carries a file with a name and a non-empty session token
  which is not a key of the store: the assignment to the session's flag raises
  \<open>KeyError\<close> outside the \<open>try\<close> block, so the exception leaves the handler (the
  framework answers 500) and the state is returned as it was: no file saved, no status
  recorded, no session touched. For a token of the store the handler returns a response.
  Over a run of the system a token is a key of the store exactly when the index route
  has registered it.
\<close>

theorem upload_unregistered_token:
  assumes "original \<noteq> []" and "sid \<noteq> []"
  shows "(case chat_sessions w sid of
            None \<Rightarrow>
              upload_file cfg sf fs
                \<lparr>upload_session_id = Some sid, upload_filename = Some original\<rparr> w
              = (Inl (KeyError sid), w)
          | Some s \<Rightarrow>
              (\<exists>resp. fst (upload_file cfg sf fs
                 \<lparr>upload_session_id = Some sid, upload_filename = Some original\<rparr> w) = Inr resp))
     \<and> fst (http_response (Inl (KeyError sid))) = 500
     \<and> (chat_sessions (run cfg sf evs) sid = None) = (sid \<notin> index_tokens evs)"
proof -
  have a: "(chat_sessions (run cfg sf evs) sid = None) = (sid \<notin> index_tokens evs)"
    by (rule run_unknown)
  show ?thesis
    using assms a upload_known_returns [of w sid _ original cfg sf fs]
      upload_unknown_raises [of w sid original cfg sf fs]
    by (simp add: http_response_def split: option.splits)
qed

theorem upload_unregistered_token_witness:
  "''a.pdf'' \<noteq> [] \<and> ''s9'' \<noteq> []
   \<and> upload_file example_config werkzeug_secure_filename writable
         \<lparr>upload_session_id = Some ''s9'', upload_filename = Some ''a.pdf''\<rparr> example_world
       = (Inl (KeyError ''s9''), example_world)
   \<and> (\<exists>resp. fst (upload_file example_config werkzeug_secure_filename writable
         \<lparr>upload_session_id = Some ''s1'', upload_filename = Some ''a.pdf''\<rparr> example_world)
       = Inr resp)
   \<and> chat_sessions (run example_config werkzeug_secure_filename [GetIndex None ''s1'']) ''s9''
       = None
   \<and> ''s9'' \<notin> index_tokens [GetIndex None ''s1'']"
proof -
  have n: "''a.pdf'' \<noteq> []" "''s9'' \<noteq> []" "''s1'' \<noteq> []" by simp_all
  show ?thesis
    using
      upload_unregistered_token [OF n(1) n(2), where w = example_world
        and cfg = example_config and sf = werkzeug_secure_filename and fs = writable
        and evs = "[GetIndex None ''s1'']"]
      upload_unregistered_token [OF n(1) n(3), where w = example_world
        and cfg = example_config and sf = werkzeug_secure_filename and fs = writable
        and evs = "[]"]
    by (simp add: example_world_def)
qed

text \<open>
  Claim C9. The status route answers 400 exactly when the request carries no token (none,
  or an empty one). For a non-empty token that is not a key of the store, in any state
  the system reaches, it answers 200 with the status \<open>Ready\<close> and the flag false.
\<close>

theorem status_route_unknown_token:
  assumes "sid \<noteq> []" and "chat_sessions (run cfg sf evs) sid = None"
  shows "get_status (Some sid) (run cfg sf evs)
           = (Inr (200, StatusBody ''Ready'' False), run cfg sf evs)
     \<and> (fst (http_response (fst (get_status tok w))) = 400) = no_token tok
     \<and> no_token tok = (tok = None \<or> tok = Some [])"
proof -
  have "processing_status (run cfg sf evs) sid = None"
    by (rule run_status_unknown [OF assms(2)])
  then have a: "get_status (Some sid) (run cfg sf evs)
           = (Inr (200, StatusBody ''Ready'' False), run cfg sf evs)"
    using assms by (simp add: get_status_def)
  have b: "(fst (http_response (fst (get_status tok w))) = 400) = no_token tok"
    by (simp add: get_status_def http_response_def no_token_def Let_def split: option.splits)
  have c: "no_token tok = (tok = None \<or> tok = Some [])"
    by (simp add: no_token_def split: option.splits)
  show ?thesis using a b c by simp
qed


theorem status_route_unknown_token_witness:
  "''s9'' \<noteq> []
   \<and> chat_sessions (run example_config werkzeug_secure_filename
        [GetIndex None ''s1'',
         PostUpload \<lparr>upload_session_id = Some ''s1'', upload_filename = Some ''a.pdf''\<rparr> writable])
        ''s9'' = None
   \<and> get_status (Some ''s9'') (run example_config werkzeug_secure_filename
        [GetIndex None ''s1'',
         PostUpload \<lparr>upload_session_id = Some ''s1'', upload_filename = Some ''a.pdf''\<rparr> writable])
       = (Inr (200, StatusBody ''Ready'' False),
          run example_config werkzeug_secure_filename
            [GetIndex None ''s1'',
             PostUpload \<lparr>upload_session_id = Some ''s1'', upload_filename = Some ''a.pdf''\<rparr>
               writable])"
proof -
  have n: "''s9'' \<noteq> []" by simp
  have u: "chat_sessions (run example_config werkzeug_secure_filename
        [GetIndex None ''s1'',
         PostUpload \<lparr>upload_session_id = Some ''s1'', upload_filename = Some ''a.pdf''\<rparr> writable])
        ''s9'' = None"
    by (simp add: run_unknown)
  show ?thesis
    using n u status_route_unknown_token [OF n u] by simp
qed

section \<open>Segments\<close>

lemma keeps_segmentsD: "keeps_segments st \<Longrightarrow> session_segments (snd (st w)) sid = session_segments w sid"
  by (simp add: keeps_segments_def maintains_def)

lemma keeps_seq: "keeps_segments s1 \<Longrightarrow> keeps_segments s2 \<Longrightarrow> keeps_segments (seq s1 s2)"
  by (simp add: keeps_segments_def maintains_seq)

lemma keeps_call: "(\<And>v. keeps_segments (k v)) \<Longrightarrow> keeps_segments (call r k)"
  by (simp add: keeps_segments_def maintains_call)

lemma keeps_reading: "(\<And>v. keeps_segments (k v)) \<Longrightarrow> keeps_segments (reading f k)"
  by (simp add: keeps_segments_def maintains_reading)

lemma keeps_try:
  "keeps_segments body \<Longrightarrow> (\<And>e. keeps_segments (handler e)) \<Longrightarrow> keeps_segments final
   \<Longrightarrow> keeps_segments (try_except_finally body handler final)"
  by (simp add: keeps_segments_def maintains_try)

lemma keeps_set_is_processing: "keeps_segments (set_is_processing sid b)"
  by (auto simp: keeps_segments_def maintains_def session_segments_def store_defs
      split: option.splits)

lemma keeps_set_extracted_text: "keeps_segments (set_extracted_text sid t)"
  by (auto simp: keeps_segments_def maintains_def session_segments_def store_defs
      split: option.splits)

lemma keeps_append_message: "keeps_segments (append_message sid m)"
  by (auto simp: keeps_segments_def maintains_def session_segments_def store_defs
      split: option.splits)

lemma keeps_set_status: "keeps_segments (set_status sid t)"
  by (auto simp: keeps_segments_def maintains_def session_segments_def store_defs)

lemma keeps_start_thread: "keeps_segments (start_thread j)"
  by (auto simp: keeps_segments_def maintains_def session_segments_def store_defs)

lemma keeps_save_file: "keeps_segments (save_file fs p)"
  by (auto simp: keeps_segments_def maintains_def session_segments_def save_file_def
      split: option.splits)

lemmas keeps_intros = keeps_seq keeps_call keeps_reading keeps_try keeps_set_is_processing
  keeps_set_extracted_text keeps_append_message keeps_set_status keeps_start_thread
  keeps_save_file

lemma pdf_keeps_segments: "keeps_segments (process_pdf_file c sid fp)"
  unfolding process_pdf_file_def by (intro keeps_intros)

lemma answer_keeps_segments: "keeps_segments (generate_answer c sid q)"
  unfolding generate_answer_def by (intro keeps_intros)

lemma index_keeps_segments: "session_segments (snd (index tok fresh w)) sid = session_segments w sid"
  by (simp add: index_def Let_def session_segments_def put_session_def)

lemma upload_try_body_keeps_segments:
  "session_segments (snd (upload_try_body cfg sf fs sid' orig w)) sid = session_segments w sid"
proof -
  have a: "session_segments (snd (seq (save_file fs p) (start_thread j) w)) sid
      = session_segments w sid" for p j
    by (rule keeps_segmentsD) (intro keeps_intros)
  have b: "session_segments (snd (set_is_processing sid' False w)) sid = session_segments w sid"
    by (rule keeps_segmentsD [OF keeps_set_is_processing])
  show ?thesis
    using a b by (simp add: upload_try_body_def Let_def snd_respond split: sum.splits)
qed

lemma upload_try_keeps_segments:
  "session_segments (snd (upload_try cfg sf fs sid' orig w)) sid = session_segments w sid"
proof -
  obtain r w1 where b: "upload_try_body cfg sf fs sid' orig w = (r, w1)"
    by (cases "upload_try_body cfg sf fs sid' orig w")
  have s1: "session_segments w1 sid = session_segments w sid"
    using upload_try_body_keeps_segments [of cfg sf fs sid' orig w sid] b by simp
  have "session_segments (snd (set_is_processing sid' False w1)) sid = session_segments w1 sid"
    by (rule keeps_segmentsD [OF keeps_set_is_processing])
  then show ?thesis using b s1
    by (simp add: upload_try_def snd_respond split: sum.splits)
qed

lemma upload_keeps_segments:
  "session_segments (snd (upload_file cfg sf fs req w)) sid = session_segments w sid"
proof -
  have m: "session_segments (snd (seq (set_is_processing sid' True)
        (set_status sid' ''Processing your file...'') w)) sid = session_segments w sid" for sid'
    by (rule keeps_segmentsD) (intro keeps_intros)
  have "session_segments (snd (upload_try cfg sf fs sid' orig w1)) sid = session_segments w sid"
    if "seq (set_is_processing sid' True) (set_status sid' ''Processing your file...'') w = (r, w1)"
    for sid' orig r w1
    using that m [of sid'] upload_try_keeps_segments [of cfg sf fs sid' orig w1 sid] by simp
  moreover have "session_segments w1 sid = session_segments w sid"
    if "seq (set_is_processing sid' True) (set_status sid' ''Processing your file...'') w = (r, w1)"
    for sid' r w1
    using that m [of sid'] by simp
  ultimately show ?thesis
    by (auto simp: upload_file_def split: option.splits prod.splits)
qed

lemma ask_keeps_segments:
  "session_segments (snd (ask_question req w)) sid = session_segments w sid"
  by (simp add: ask_question_eval session_segments_def Let_def split: option.splits)


lemma pdf_job_stores_text:
  assumes "chat_sessions w sid = Some s" and "process_pdf c fp = Inr extracted"
  shows "map_option extracted_text (chat_sessions (snd (process_pdf_file c sid fp w)) sid)
     = Some extracted"
  using assms by (simp add: process_pdf_file_def stmt_defs store_defs)

lemma video_job_stores_both:
  assumes "chat_sessions w sid = Some s"
    and "extract_audio_from_video c fp (upload_folder_temp cfg) = Inr p"
    and "model_transcribe c p = Inr tr" and "tr_text tr = Some extracted"
  shows "map_option extracted_text (chat_sessions (snd (process_video_file cfg c sid fp w)) sid)
       = Some extracted
     \<and> session_segments (snd (process_video_file cfg c sid fp w)) sid
       = Some (result_segments tr)"
  using assms
  by (simp add: process_video_file_def extract_audio_def transcribe_audio_def result_text_def
      os_remove_def stmt_defs store_defs session_segments_def)

text \<open>
  Claim C7, as the code has it. The segments of a session are written by the video job
  alone: a session starts without them, and no handler, nor the PDF job, nor the answer
  job changes what a session holds of segments. A video job that succeeds overwrites
  both the extracted text and the segments with its result; a PDF job that succeeds
  overwrites the extracted text and leaves the segments as they were.
\<close>

theorem segments_written_by_video_job:
  "session_segments (snd (index tok fresh w)) sid = session_segments w sid
   \<and> session_segments (snd (upload_file cfg sf fs upload w)) sid = session_segments w sid
   \<and> session_segments (snd (ask_question ask w)) sid = session_segments w sid
   \<and> session_segments (snd (get_status tok w)) sid = session_segments w sid
   \<and> session_segments (snd (get_messages tok w)) sid = session_segments w sid
   \<and> session_segments (snd (generate_answer c sid' question w)) sid = session_segments w sid
   \<and> session_segments (snd (process_pdf_file c sid' fp w)) sid = session_segments w sid
   \<and> session_segments initial_world sid = None
   \<and> (chat_sessions w sid = Some s \<and> process_pdf c fp = Inr extracted
      \<longrightarrow> map_option extracted_text (chat_sessions (snd (process_pdf_file c sid fp w)) sid)
          = Some extracted)
   \<and> (chat_sessions w sid = Some s
        \<and> extract_audio_from_video c fp (upload_folder_temp cfg) = Inr audio_path
        \<and> model_transcribe c audio_path = Inr result \<and> tr_text result = Some extracted
      \<longrightarrow> map_option extracted_text
            (chat_sessions (snd (process_video_file cfg c sid fp w)) sid) = Some extracted
        \<and> session_segments (snd (process_video_file cfg c sid fp w)) sid
          = Some (result_segments result))"
  using index_keeps_segments [of tok fresh w sid] upload_keeps_segments [of cfg sf fs upload w sid]
    ask_keeps_segments [of ask w sid]
    keeps_segmentsD [OF answer_keeps_segments, of c sid' question w sid]
    keeps_segmentsD [OF pdf_keeps_segments, of c sid' fp w sid]
    pdf_job_stores_text [of w sid s c fp extracted]
    video_job_stores_both [of w sid s c fp cfg audio_path result extracted]
  by (simp add: get_status_same get_messages_same session_segments_def initial_world_def)

theorem segments_written_by_video_job_witness:
  "chat_sessions example_world ''s1'' = Some example_session
   \<and> process_pdf example_collaborators ''paper.pdf'' = Inr ''pdf text''
   \<and> map_option extracted_text
        (chat_sessions (snd (process_pdf_file example_collaborators ''s1'' ''paper.pdf''
           example_world)) ''s1'') = Some ''pdf text''
   \<and> session_segments (snd (process_pdf_file example_collaborators ''s1'' ''paper.pdf''
        example_world)) ''s1'' = Some [\<lparr>seg_start = 0, seg_end = 10, seg_text = ''a''\<rparr>]
   \<and> extract_audio_from_video example_collaborators ''talk.mp4''
        (upload_folder_temp example_config) = Inr ''uploads/temp/audio.wav''
   \<and> model_transcribe example_collaborators ''uploads/temp/audio.wav''
       = Inr \<lparr>tr_text = Some ''spoken'',
              tr_segments = Some [\<lparr>seg_start = 0, seg_end = 4, seg_text = ''spoken''\<rparr>]\<rparr>
   \<and> session_segments (snd (process_video_file example_config example_collaborators ''s1''
        ''talk.mp4'' example_world)) ''s1''
       = Some [\<lparr>seg_start = 0, seg_end = 4, seg_text = ''spoken''\<rparr>]"
proof -
  have h: "chat_sessions example_world ''s1'' = Some example_session"
    by (simp add: example_world_def)
  have p: "process_pdf example_collaborators ''paper.pdf'' = Inr ''pdf text''"
    by (simp add: example_collaborators_def)
  have a: "extract_audio_from_video example_collaborators ''talk.mp4''
        (upload_folder_temp example_config) = Inr ''uploads/temp/audio.wav''"
    by (simp add: example_collaborators_def example_config_def)
  have t: "model_transcribe example_collaborators ''uploads/temp/audio.wav''
       = Inr \<lparr>tr_text = Some ''spoken'',
              tr_segments = Some [\<lparr>seg_start = 0, seg_end = 4, seg_text = ''spoken''\<rparr>]\<rparr>"
    by (simp add: example_collaborators_def)
  have s: "session_segments example_world ''s1''
      = Some [\<lparr>seg_start = 0, seg_end = 10, seg_text = ''a''\<rparr>]"
    by (simp add: session_segments_def example_world_def example_session_def)
  show ?thesis
    using h p a t s
      segments_written_by_video_job [where w = example_world and sid = "''s1''"
        and sid' = "''s1''" and s = example_session and c = example_collaborators
        and fp = "''paper.pdf''" and extracted = "''pdf text''"]
      segments_written_by_video_job [where w = example_world and sid = "''s1''"
        and s = example_session and c = example_collaborators and cfg = example_config
        and fp = "''talk.mp4''" and extracted = "''spoken''"
        and audio_path = "''uploads/temp/audio.wav''"
        and result = "\<lparr>tr_text = Some ''spoken'',
              tr_segments = Some [\<lparr>seg_start = 0, seg_end = 4, seg_text = ''spoken''\<rparr>]\<rparr>"]
    by (simp add: result_segments_def)
qed

text \<open>
  After a video upload and then a PDF upload have both completed, the session holds the
  text of the PDF together with the segments of the video.
\<close>

theorem pdf_upload_keeps_segments:
  "session_segments (run example_config werkzeug_secure_filename video_then_pdf) ''s1''
     = Some [\<lparr>seg_start = 0, seg_end = 4, seg_text = ''spoken''\<rparr>]
   \<and> session_segments (run example_config werkzeug_secure_filename video_then_pdf) ''s1'' \<noteq> None
   \<and> map_option extracted_text
        (chat_sessions (run example_config werkzeug_secure_filename video_then_pdf) ''s1'')
     = Some ''pdf text''
   \<and> threads (run example_config werkzeug_secure_filename video_then_pdf) = []"
  by code_simp

section \<open>Uploads with an extension outside the list\<close>

text \<open>
  Claim C2, as the code has it. An upload with a named file and the token of a session of
  the store, whose sanitized name has a dot and whose lowercased extension is none of
  \<open>pdf\<close>, \<open>mp4\<close>, \<open>mov\<close>, \<open>avi\<close>, \<open>mkv\<close>: the handler answers 400 with
  \<open>Unsupported file type\<close>, saves no file and starts no job. It writes the session's
  flag twice, true on entry and false before it returns, so the session is not marked
  as processing once the handler has returned.
\<close>

theorem unsupported_upload:
  assumes "original \<noteq> []" and "sid \<noteq> []" and "chat_sessions w sid = Some s"
    and "rsplit_dot_1 (sf original) = Inr ext"
    and "lower ext \<notin> set [''pdf'', ''mp4'', ''mov'', ''avi'', ''mkv'']"
  shows "fst (upload_file cfg sf fs
            \<lparr>upload_session_id = Some sid, upload_filename = Some original\<rparr> w)
         = Inr (400, ErrorBody ''Unsupported file type'')
     \<and> flag_writes (snd (upload_file cfg sf fs
            \<lparr>upload_session_id = Some sid, upload_filename = Some original\<rparr> w))
         = flag_writes w @ [(sid, True), (sid, False)]
     \<and> chat_sessions (snd (upload_file cfg sf fs
            \<lparr>upload_session_id = Some sid, upload_filename = Some original\<rparr> w))
         = (chat_sessions w)(sid \<mapsto> s\<lparr>is_processing := False\<rparr>)
     \<and> threads (snd (upload_file cfg sf fs
            \<lparr>upload_session_id = Some sid, upload_filename = Some original\<rparr> w)) = threads w
     \<and> files (snd (upload_file cfg sf fs
            \<lparr>upload_session_id = Some sid, upload_filename = Some original\<rparr> w)) = files w"
  using assms
  by (simp add: upload_file_def upload_try_def upload_try_body_def respond_def stmt_defs
      store_defs Let_def)

theorem unsupported_upload_witness:
  "''notes.txt'' \<noteq> [] \<and> ''s1'' \<noteq> []
   \<and> chat_sessions example_world ''s1'' = Some example_session
   \<and> rsplit_dot_1 (werkzeug_secure_filename ''notes.txt'') = Inr ''txt''
   \<and> lower ''txt'' \<notin> set [''pdf'', ''mp4'', ''mov'', ''avi'', ''mkv'']
   \<and> fst (upload_file example_config werkzeug_secure_filename writable
            \<lparr>upload_session_id = Some ''s1'', upload_filename = Some ''notes.txt''\<rparr>
            example_world)
         = Inr (400, ErrorBody ''Unsupported file type'')
   \<and> chat_sessions (snd (upload_file example_config werkzeug_secure_filename writable
            \<lparr>upload_session_id = Some ''s1'', upload_filename = Some ''notes.txt''\<rparr>
            example_world)) ''s1''
         = Some example_session"
proof -
  have n: "''notes.txt'' \<noteq> []" "''s1'' \<noteq> []" by simp_all
  have h: "chat_sessions example_world ''s1'' = Some example_session"
    by (simp add: example_world_def)
  have r: "rsplit_dot_1 (werkzeug_secure_filename ''notes.txt'') = Inr ''txt''" by code_simp
  have l: "lower ''txt'' \<notin> set [''pdf'', ''mp4'', ''mov'', ''avi'', ''mkv'']" by code_simp
  show ?thesis
    using n h r l
      unsupported_upload [where sf = werkzeug_secure_filename and cfg = example_config
        and fs = writable, OF n h r l]
    by (simp add: example_session_def)
qed

text \<open>
  An upload of \<open>notes.txt\<close> is answered 400 after the flag has been set true and then
  false; an upload of \<open>README\<close>, a name without a dot, is answered 500.
\<close>

theorem unsupported_upload_sets_flag:
  "fst (upload_file example_config werkzeug_secure_filename writable
          (example_upload ''notes.txt'') example_world)
     = Inr (400, ErrorBody ''Unsupported file type'')
   \<and> flag_writes (snd (upload_file example_config werkzeug_secure_filename writable
          (example_upload ''notes.txt'') example_world)) = [(''s1'', True), (''s1'', False)]
   \<and> fst (upload_file example_config werkzeug_secure_filename writable
          (example_upload ''README'') example_world)
     = Inr (500, ErrorBody ''list index out of range'')"
  by code_simp

section \<open>The extension of an accepted upload\<close>

lemma alnum_not_space: "alnum c \<Longrightarrow> c \<notin> set whitespace"
  unfolding alnum_def whitespace_def upper_letters_def lower_letters_def decimal_digits_def
  by auto

lemma alnum_not_slash: "alnum c \<Longrightarrow> c \<noteq> CHR ''/''"
  unfolding alnum_def upper_letters_def lower_letters_def decimal_digits_def
  by auto

lemma alnum_not_dot: "alnum c \<Longrightarrow> c \<noteq> CHR ''.''"
  unfolding alnum_def upper_letters_def lower_letters_def decimal_digits_def
  by auto

lemma alnum_not_stripped: "alnum c \<Longrightarrow> c \<notin> set ''._''"
  unfolding alnum_def upper_letters_def lower_letters_def decimal_digits_def
  by auto

lemma alnum_kept: "alnum c \<Longrightarrow> c \<in> set filename_chars"
  by (auto simp: alnum_def filename_chars_def)

lemma dot_facts:
  "CHR ''.'' \<notin> set whitespace" "CHR ''.'' \<in> set filename_chars"
  by (simp_all add: whitespace_def filename_chars_def)

lemma rsplit_dot_1_Inr:
  assumes "rsplit_dot_1 s = Inr e"
  shows "\<exists>b. s = b @ CHR ''.'' # e" and "CHR ''.'' \<notin> set e"
proof -
  let ?P = "\<lambda>c. c \<noteq> CHR ''.''"
  have d: "CHR ''.'' \<in> set s" and e: "e = rev (takeWhile ?P (rev s))"
    using assms by (auto simp: rsplit_dot_1_def split: if_splits)
  show "CHR ''.'' \<notin> set e"
    using e by (auto dest: set_takeWhileD)
  have "dropWhile ?P (rev s) \<noteq> []" using d by (simp add: dropWhile_eq_Nil_conv) 
  then obtain y ys where y: "dropWhile ?P (rev s) = y # ys" by (cases "dropWhile ?P (rev s)") auto
  have "\<not> ?P (hd (dropWhile ?P (rev s)))"
    by (rule hd_dropWhile) fact
  then have "y = CHR ''.''" using y by simp
  then have "rev s = takeWhile ?P (rev s) @ CHR ''.'' # ys"
    using takeWhile_dropWhile_id [of ?P "rev s"] y by simp
  then have "rev (rev s) = rev (takeWhile ?P (rev s) @ CHR ''.'' # ys)" by simp
  then have "s = rev ys @ CHR ''.'' # e" using e by simp
  then show "\<exists>b. s = b @ CHR ''.'' # e" by blast
qed

lemma rsplit_dot_1_append:
  assumes "CHR ''.'' \<notin> set e"
  shows "rsplit_dot_1 (b @ CHR ''.'' # e) = Inr e"
proof -
  have "takeWhile (\<lambda>c. c \<noteq> CHR ''.'') (rev e @ CHR ''.'' # rev b)
      = rev e @ takeWhile (\<lambda>c. c \<noteq> CHR ''.'') (CHR ''.'' # rev b)"
    by (rule takeWhile_append2) (use assms in auto)
  then have "takeWhile (\<lambda>c. c \<noteq> CHR ''.'') (rev e @ CHR ''.'' # rev b) = rev e"
    by simp
  then show ?thesis by (simp add: rsplit_dot_1_def)
qed

lemma rsplit_dot_1_no_dot: "CHR ''.'' \<notin> set s \<Longrightarrow> rsplit_dot_1 s = Inl IndexError"
  by (simp add: rsplit_dot_1_def)

lemma str_join_Cons: "str_join sep (x # xs) = (if xs = [] then x else x @ sep @ str_join sep xs)"
  by (cases xs) simp_all

lemma split_words_plain:
  "\<forall>c\<in>set q. c \<notin> set whitespace \<Longrightarrow>
   split_words word q = (if word @ q = [] then [] else [word @ q])"
  by (induction q arbitrary: word) auto

lemma join_split_suffix:
  assumes "\<forall>c\<in>set q. c \<notin> set whitespace" and "q \<noteq> []"
  shows "\<exists>r. str_join ''_'' (split_words word (p @ q)) = r @ q"
proof (induction p arbitrary: word)
  case Nil
  show ?case using assms by (simp add: split_words_plain)
next
  case (Cons c p)
  show ?case
  proof (cases "c \<in> set whitespace")
    case False
    then show ?thesis using Cons [of "word @ [c]"] by simp
  next
    case True
    obtain r where r: "str_join ''_'' (split_words [] (p @ q)) = r @ q"
      using Cons [of "[]"] by blast
    then have ne: "split_words [] (p @ q) \<noteq> []" using assms(2) by auto
    show ?thesis
    proof (cases "word = []")
      case True
      then show ?thesis using \<open>c \<in> set whitespace\<close> r by simp
    next
      case False
      then have "str_join ''_'' (split_words word ((c # p) @ q)) = (word @ ''_'' @ r) @ q"
        using \<open>c \<in> set whitespace\<close> r ne by (simp add: str_join_Cons)
      then show ?thesis by blast
    qed
  qed
qed


lemma dropWhile_stops:
  "xs \<noteq> [] \<Longrightarrow> hd xs \<notin> S \<Longrightarrow> dropWhile (\<lambda>c. c \<in> S) (xs @ ys) = xs @ ys"
  by (cases xs) auto

lemma strip_general:
  assumes ne: "ext \<noteq> []" and h: "hd ext \<notin> set chars" and l: "last ext \<notin> set chars"
    and d: "d \<in> set chars"
  shows "str_strip chars (r @ d # ext) = ext
     \<or> (\<exists>r'. str_strip chars (r @ d # ext) = r' @ d # ext)"
proof -
  let ?P = "\<lambda>c. c \<in> set chars"
  have rne: "rev ext \<noteq> []" using ne by simp
  have "hd (rev ext) = last ext" using ne by (simp add: hd_rev)
  then have lo: "\<not> ?P (hd (rev ext))" using l by simp
  have keep: "rev (dropWhile ?P (rev ext @ zs)) = rev zs @ ext" for zs
    by (simp only: dropWhile_stops [OF rne lo] rev_append rev_rev_ident)
  show ?thesis
  proof (cases "\<forall>c\<in>set r. ?P c")
    case True
    then have "dropWhile ?P (r @ d # ext) = dropWhile ?P (d # ext)"
      by (simp only: dropWhile_append2)
    also have "\<dots> = dropWhile ?P (ext @ [])" using d by simp
    also have "\<dots> = ext @ []" by (rule dropWhile_stops [OF ne h])
    finally have a: "dropWhile ?P (r @ d # ext) = ext" by simp
    have "str_strip chars (r @ d # ext) = rev (dropWhile ?P (rev ext @ []))"
      unfolding str_strip_def a by simp
    also have "\<dots> = ext" by (simp only: keep rev.simps append_Nil)
    finally show ?thesis by blast
  next
    case False
    then obtain x where "x \<in> set r" "\<not> ?P x" by blast
    then have a: "dropWhile ?P (r @ d # ext) = dropWhile ?P r @ d # ext"
      by (rule dropWhile_append1)
    have "str_strip chars (r @ d # ext)
        = rev (dropWhile ?P (rev ext @ d # rev (dropWhile ?P r)))"
      unfolding str_strip_def a by simp
    also have "\<dots> = rev (d # rev (dropWhile ?P r)) @ ext" by (simp only: keep)
    also have "\<dots> = dropWhile ?P r @ d # ext" by simp
    finally show ?thesis by blast
  qed
qed

lemma strip_keeps_extension:
  assumes ne: "ext \<noteq> []" and al: "\<forall>c\<in>set ext. alnum c"
  shows "str_strip ''._'' (r @ CHR ''.'' # ext) = ext
     \<or> (\<exists>r'. str_strip ''._'' (r @ CHR ''.'' # ext) = r' @ CHR ''.'' # ext)"
proof (rule strip_general [OF ne])
  have "hd ext \<in> set ext" using ne by simp
  then show "hd ext \<notin> set ''._''" using al alnum_not_stripped by blast
  have "last ext \<in> set ext" using ne by simp
  then show "last ext \<notin> set ''._''" using al alnum_not_stripped by blast
  show "CHR ''.'' \<in> set ''._''" by simp
qed

lemma extension_no_separator:
  assumes al: "\<forall>c\<in>set ext. alnum c"
  shows "map (\<lambda>c. if c = CHR ''/'' then CHR '' '' else c) (CHR ''.'' # ext) = CHR ''.'' # ext"
proof -
  have "\<forall>c\<in>set ext. c \<noteq> CHR ''/''" using al alnum_not_slash by blast
  then have "map (\<lambda>c. if c = CHR ''/'' then CHR '' '' else c) ext = ext"
    by (induction ext) simp_all
  then show ?thesis by simp
qed

lemma extension_no_whitespace:
  assumes al: "\<forall>c\<in>set ext. alnum c"
  shows "\<forall>c\<in>set (CHR ''.'' # ext). c \<notin> set whitespace"
proof -
  have "\<forall>c\<in>set ext. c \<notin> set whitespace" using al alnum_not_space by blast
  then show ?thesis using dot_facts(1) by (simp del: set_simps add: list.set(2)[where ?'a=char])
qed

lemma extension_kept:
  assumes al: "\<forall>c\<in>set ext. alnum c"
  shows "filter (\<lambda>c. c \<in> set filename_chars) (CHR ''.'' # ext) = CHR ''.'' # ext"
proof -
  have "\<forall>c\<in>set ext. c \<in> set filename_chars" using al alnum_kept by blast
  then have "filter (\<lambda>c. c \<in> set filename_chars) ext = ext"
    by (simp only: filter_id_conv)
  then show ?thesis using dot_facts(2) by (simp only: filter.simps if_True)
qed

lemma secure_filename_keeps_extension:
  assumes ne: "ext \<noteq> []" and al: "\<forall>c\<in>set ext. alnum c"
  shows "werkzeug_secure_filename (base @ CHR ''.'' # ext) = ext
     \<or> (\<exists>r. werkzeug_secure_filename (base @ CHR ''.'' # ext) = r @ CHR ''.'' # ext)"
proof -
  define f where "f = (\<lambda>c. if c = CHR ''/'' then CHR '' '' else c)"
  define ok where "ok = (\<lambda>c. c \<in> set filename_chars)"
  define q where "q = CHR ''.'' # ext"
  have q_same: "map f q = q"
    unfolding q_def f_def by (rule extension_no_separator [OF al])
  have q_plain: "\<forall>c\<in>set q. c \<notin> set whitespace"
    unfolding q_def by (rule extension_no_whitespace [OF al])
  have q_ne: "q \<noteq> []" by (simp add: q_def)
  obtain r where r: "str_join ''_'' (split_words [] (map f base @ q)) = r @ q"
    using join_split_suffix [OF q_plain q_ne, of "[]" "map f base"] by blast
  have q_kept: "filter ok q = q"
    unfolding q_def ok_def by (rule extension_kept [OF al])
  have "werkzeug_secure_filename (base @ q)
      = str_strip ''._'' (filter ok (str_join ''_'' (split_words [] (map f (base @ q)))))"
    by (simp only: werkzeug_secure_filename_def str_split_def Let_def f_def ok_def)
  also have "\<dots> = str_strip ''._'' (filter ok r @ q)"
    by (simp only: map_append q_same r filter_append q_kept)
  finally have e: "werkzeug_secure_filename (base @ CHR ''.'' # ext)
      = str_strip ''._'' (filter ok r @ CHR ''.'' # ext)"
    by (simp only: q_def)
  show ?thesis
    unfolding e by (rule strip_keeps_extension [OF ne al])
qed

lemma secure_filename_extension:
  assumes "rsplit_dot_1 original = Inr ext" and "ext \<noteq> []" and "\<forall>c\<in>set ext. alnum c"
    and "rsplit_dot_1 (werkzeug_secure_filename original) = Inr ext'"
  shows "ext' = ext \<and> suffix (CHR ''.'' # ext) (werkzeug_secure_filename original)"
proof -
  obtain base where b: "original = base @ CHR ''.'' # ext"
    using rsplit_dot_1_Inr(1) [OF assms(1)] by blast
  have nd: "CHR ''.'' \<notin> set ext" by (rule rsplit_dot_1_Inr(2) [OF assms(1)])
  from secure_filename_keeps_extension [OF assms(2,3), of base]
  show ?thesis
  proof
    assume "werkzeug_secure_filename (base @ CHR ''.'' # ext) = ext"
    then have "rsplit_dot_1 (werkzeug_secure_filename original) = Inl IndexError"
      using b nd by (simp add: rsplit_dot_1_no_dot)
    then show ?thesis using assms(4) by simp
  next
    assume "\<exists>r. werkzeug_secure_filename (base @ CHR ''.'' # ext) = r @ CHR ''.'' # ext"
    then obtain r where r: "werkzeug_secure_filename original = r @ CHR ''.'' # ext"
      using b by auto
    then have "rsplit_dot_1 (werkzeug_secure_filename original) = Inr ext"
      using nd by (simp add: rsplit_dot_1_append)
    moreover have "suffix (CHR ''.'' # ext) (werkzeug_secure_filename original)"
      unfolding r by (rule suffix_appendI) simp
    ultimately show ?thesis using assms(4) by simp
  qed
qed

lemma upload_accepted:
  assumes "fst (upload_file cfg sf fs req w)
      = Inr (200, MessageBody ''File uploaded successfully. Processing...'')"
    and "upload_filename req = Some original" and "upload_session_id req = Some sid"
  shows "\<exists>ext. rsplit_dot_1 (sf original) = Inr ext
      \<and> lower ext \<in> set [''pdf'', ''mp4'', ''mov'', ''avi'', ''mkv'']
      \<and> threads (snd (upload_file cfg sf fs req w))
        = threads w @
          [if lower ext = ''pdf''
           then PdfJob sid (path_join (upload_folder_pdf cfg) (sf original))
           else VideoJob sid (path_join (upload_folder_video cfg) (sf original))]"
proof (cases "chat_sessions w sid")
  case None
  then show ?thesis using assms
    by (simp add: upload_file_def stmt_defs store_defs split: if_splits)
next
  case (Some s)
  show ?thesis
  proof (cases "rsplit_dot_1 (sf original)")
    case (Inl e)
    then show ?thesis using assms Some
      by (simp add: upload_file_def upload_try_def upload_try_body_def respond_def stmt_defs
          store_defs Let_def split: if_splits)
  next
    case (Inr ext)
    then show ?thesis using assms Some
      by (simp add: upload_file_def upload_try_def upload_try_body_def respond_def stmt_defs
          store_defs save_file_def Let_def split: if_splits option.splits)
  qed
qed

text \<open>
  Claim C8, as the code has it. For an accepted upload whose submitted name ends in a dot
  followed by one or more letters and digits, the sanitized name ends in that same dot
  and extension, the text after the last dot of the sanitized name is that extension,
  so the lowercased extensions of the two names agree, and it is the one the handler
  dispatches on: the PDF job for \<open>pdf\<close>, the video job for the other four.
\<close>

theorem accepted_upload_extension:
  assumes "fst (upload_file cfg werkzeug_secure_filename fs req w) = Inr accepted"
    and "upload_filename req = Some original" and "upload_session_id req = Some sid"
    and "rsplit_dot_1 original = Inr ext" and "ext \<noteq> []" and "list_all alnum ext"
  shows "suffix (CHR ''.'' # ext) (werkzeug_secure_filename original)
     \<and> rsplit_dot_1 (werkzeug_secure_filename original) = Inr ext
     \<and> map_sum id lower (rsplit_dot_1 (werkzeug_secure_filename original))
         = map_sum id lower (rsplit_dot_1 original)
     \<and> lower ext \<in> set [''pdf'', ''mp4'', ''mov'', ''avi'', ''mkv'']
     \<and> threads (snd (upload_file cfg werkzeug_secure_filename fs req w))
       = threads w @
         [if lower ext = ''pdf''
          then PdfJob sid (path_join (upload_folder_pdf cfg) (werkzeug_secure_filename original))
          else VideoJob sid
                 (path_join (upload_folder_video cfg) (werkzeug_secure_filename original))]"
proof -
  have al: "\<forall>c\<in>set ext. alnum c" using assms(6) by (simp add: list_all_iff)
  obtain ext' where e: "rsplit_dot_1 (werkzeug_secure_filename original) = Inr ext'"
    and l: "lower ext' \<in> set [''pdf'', ''mp4'', ''mov'', ''avi'', ''mkv'']"
    and t: "threads (snd (upload_file cfg werkzeug_secure_filename fs req w))
       = threads w @
         [if lower ext' = ''pdf''
          then PdfJob sid (path_join (upload_folder_pdf cfg) (werkzeug_secure_filename original))
          else VideoJob sid
                 (path_join (upload_folder_video cfg) (werkzeug_secure_filename original))]"
    using upload_accepted [OF assms(1) [unfolded accepted_def] assms(2,3)] by blast
  have s: "ext' = ext \<and> suffix (CHR ''.'' # ext) (werkzeug_secure_filename original)"
    by (rule secure_filename_extension [OF assms(4,5) al e])
  show ?thesis using e l t s assms(4) by simp
qed

theorem accepted_upload_extension_witness:
  "fst (upload_file example_config werkzeug_secure_filename writable
          (example_upload ''../My talk (1).MP4'') example_world) = Inr accepted
   \<and> rsplit_dot_1 ''../My talk (1).MP4'' = Inr ''MP4''
   \<and> list_all alnum ''MP4''
   \<and> werkzeug_secure_filename ''../My talk (1).MP4'' = ''My_talk_1.MP4''
   \<and> suffix ''.MP4'' (werkzeug_secure_filename ''../My talk (1).MP4'')
   \<and> threads (snd (upload_file example_config werkzeug_secure_filename writable
          (example_upload ''../My talk (1).MP4'') example_world))
       = [VideoJob ''s1'' ''uploads/video/My_talk_1.MP4'']"
proof -
  have a: "fst (upload_file example_config werkzeug_secure_filename writable
          (example_upload ''../My talk (1).MP4'') example_world) = Inr accepted"
    by code_simp
  have n: "upload_filename (example_upload ''../My talk (1).MP4'') = Some ''../My talk (1).MP4''"
    "upload_session_id (example_upload ''../My talk (1).MP4'') = Some ''s1''"
    by (simp_all add: example_upload_def)
  have r: "rsplit_dot_1 ''../My talk (1).MP4'' = Inr ''MP4''" by code_simp
  have ne: "''MP4'' \<noteq> []" by simp
  have al: "list_all alnum ''MP4''" by code_simp
  have v: "werkzeug_secure_filename ''../My talk (1).MP4'' = ''My_talk_1.MP4''" by code_simp
  have l: "lower ''MP4'' = ''mp4''" by code_simp
  have t: "threads example_world = []" by (simp add: example_world_def initial_world_def)
  show ?thesis
    using a r al v accepted_upload_extension [OF a n r ne al]
    by (simp add: l t example_config_def path_join_def)
qed

text \<open>
  Two accepted uploads whose extension the sanitizer changes: a name that ends in a dot,
  and a name with a character in its extension that the sanitizer drops.
\<close>

theorem sanitizer_changes_extension:
  "fst (upload_file example_config werkzeug_secure_filename writable
          (example_upload ''x.pdf.'') example_world) = Inr accepted
   \<and> threads (snd (upload_file example_config werkzeug_secure_filename writable
          (example_upload ''x.pdf.'') example_world)) = [PdfJob ''s1'' ''uploads/pdf/x.pdf'']
   \<and> map_sum id lower (rsplit_dot_1 (werkzeug_secure_filename ''x.pdf.'')) = Inr ''pdf''
   \<and> map_sum id lower (rsplit_dot_1 ''x.pdf.'') = Inr []
   \<and> \<not> suffix ''.'' (werkzeug_secure_filename ''x.pdf.'')
   \<and> fst (upload_file example_config werkzeug_secure_filename writable
          (example_upload ''scan.p*df'') example_world) = Inr accepted
   \<and> map_sum id lower (rsplit_dot_1 (werkzeug_secure_filename ''scan.p*df'')) = Inr ''pdf''
   \<and> map_sum id lower (rsplit_dot_1 ''scan.p*df'') = Inr ''p*df''"
  by code_simp

end
